theory Spec2Isabelle
  imports Main
begin

section \<open>Data model of \<open>src/main.js\<close>\<close>

text \<open>
  JavaScript numbers that the crawler uses as counters, lengths and thresholds are modelled
  as \<open>int\<close>; time stamps (\<open>new Date()\<close>) are natural numbers supplied by the environment.
  A thrown JavaScript value is a record of the two properties the code reads from it.
\<close>

record js_error =
  message :: "string option"
  stack :: "string option"

text \<open>Line 221: \<open>e.stack || e.message || e\<close>, a text or the thrown value itself.\<close>

datatype error_detail = Detail string | Raw js_error

text \<open>The page object built by \<open>workerFunc\<close> (lines 137-142, 168, 175, 215-216, 221).\<close>

record page =
  url :: string
  loadingStartedAt :: nat
  userAgent :: "string option"
  redactedProxyUrl :: "string option"
  loadingFinishedAt :: "nat option"
  loadedUrl :: "string option"
  subtitleName :: "string option"
  subtitle :: "string option"
  errorInfo :: "error_detail option"

text \<open>The crawler state stored under the key \<open>STATE\<close> (lines 26-29, 56).\<close>

record crawl_state =
  storeCount :: int
  pageCount :: int

definition DEFAULT_STATE :: crawl_state where
  "DEFAULT_STATE = \<lparr>storeCount = 0, pageCount = 0\<rparr>"

text \<open>
  The module-level variables (lines 56-66), the \<open>urls\<close> array of \<open>Apify.main\<close> (line 125), and
  the key-value store the process talks to. The store keeps the record under \<open>STATE\<close> and the
  batches written under \<open>PAGES-...\<close> keys, newest first; \<open>requests\<close> lists the keys of all
  \<open>Apify.setValue\<close> calls issued, newest first, whether they succeeded or not. \<open>queued\<close>
  lists the URLs handed to \<open>q.push\<close> and \<open>dispatched\<close> the URLs a worker was started on,
  both oldest first.
\<close>

record world =
  state :: crawl_state
  finishedPages :: "page list"
  lastStoredAt :: nat
  isStoring :: bool
  storePagesInterval :: int
  urls :: "string list"
  kv_STATE :: "crawl_state option"
  kv_PAGES :: "(string \<times> page list) list"
  requests :: "string list"
  queued :: "string list"
  dispatched :: "string list"

text \<open>How a call of a function that may throw, exit the process or return normally ends.\<close>

datatype outcome = Returned | Thrown js_error | Exited int

section \<open>Strings\<close>

text \<open>Decimal rendering of a number inside a template string.\<close>

definition digit_char :: "nat \<Rightarrow> char" where
  "digit_char n = ''0123456789'' ! (n mod 10)"

fun show_nat :: "nat \<Rightarrow> string" where
  "show_nat n = (if n < 10 then [digit_char n] else show_nat (n div 10) @ [digit_char n])"

declare show_nat.simps [simp del]

definition show_int :: "int \<Rightarrow> string" where
  "show_int i = (if i < 0 then CHR ''-'' # show_nat (nat (- i)) else show_nat (nat i))"

text \<open>
  \<open>leftPad\<close> is the npm package \<open>left-pad\<close>: the string is returned as it is when it already
  has \<open>len\<close> characters or more, and is padded on the left otherwise.
\<close>

definition leftPad :: "string \<Rightarrow> nat \<Rightarrow> char \<Rightarrow> string" where
  "leftPad str len ch = replicate (len - length str) ch @ str"

text \<open>\<open>String.prototype.indexOf\<close>: the first position of \<open>pat\<close> in \<open>s\<close>, or \<open>-1\<close>.\<close>

fun indexOf_from :: "nat \<Rightarrow> string \<Rightarrow> string \<Rightarrow> int" where
  "indexOf_from i [] pat = (if pat = [] then int i else - 1)"
| "indexOf_from i (c # cs) pat =
     (if take (length pat) (c # cs) = pat then int i else indexOf_from (Suc i) cs pat)"

definition indexOf :: "string \<Rightarrow> string \<Rightarrow> int" where
  "indexOf s pat = indexOf_from 0 s pat"

text \<open>\<open>String.prototype.replace\<close> with a global pattern of literal characters.\<close>

function replace_all :: "string \<Rightarrow> string \<Rightarrow> string \<Rightarrow> string" where
  "replace_all pat rep s =
     (if s = [] \<or> pat = [] then s
      else if take (length pat) s = pat then rep @ replace_all pat rep (drop (length pat) s)
      else hd s # replace_all pat rep (tl s))"
  by pat_completeness auto
termination
  by (relation "measure (\<lambda>(pat, rep, s). length s)") auto

declare replace_all.simps [simp del]

section \<open>The flush controller: \<open>maybeStoreData\<close> (lines 70-110)\<close>

text \<open>
  What the environment does during one call: the result of the two \<open>Apify.setValue\<close> calls
  (\<open>None\<close> when the promise resolves, the thrown value otherwise), the pages other workers
  push onto \<open>finishedPages\<close> while the call is suspended at each \<open>await\<close>, and the clock.
\<close>

record store_env =
  pages_write :: "js_error option"
  arrived_during_pages_write :: "page list"
  state_write :: "js_error option"
  arrived_during_state_write :: "page list"
  now :: nat

text \<open>Line 85: the key of the next batch.\<close>

definition batch_key :: "crawl_state \<Rightarrow> string" where
  "batch_key st = ''PAGES-'' @ leftPad (show_int (storeCount st + 1)) 9 (CHR ''0'')"

text \<open>
  Lines 72-88, up to the first \<open>await\<close>: the three guards, then the flag is set, the buffer
  is cloned and the key computed. \<open>None\<close> is the early \<open>return\<close>.
\<close>

definition flush_begin :: "bool \<Rightarrow> world \<Rightarrow> (string \<times> page list \<times> world) option" where
  "flush_begin force w =
     (if length (finishedPages w) = 0 then None
      else if \<not> force \<and> int (length (finishedPages w)) < storePagesInterval w then None
      else if isStoring w then None
      else let w1 = w\<lparr>isStoring := True\<rparr>;
               pagesToStore = finishedPages w1;
               key = batch_key (state w1)
           in Some (key, pagesToStore, w1))"

text \<open>\<open>Apify.setValue\<close> on a batch key and on \<open>STATE\<close>, with the result the store gives.\<close>

definition setValue_pages :: "string \<Rightarrow> page list \<Rightarrow> js_error option \<Rightarrow> world \<Rightarrow> world" where
  "setValue_pages key ps res w =
     (case res of
        None \<Rightarrow> w\<lparr>kv_PAGES := (key, ps) # kv_PAGES w, requests := key # requests w\<rparr>
      | Some e \<Rightarrow> w\<lparr>requests := key # requests w\<rparr>)"

definition setValue_state :: "crawl_state \<Rightarrow> js_error option \<Rightarrow> world \<Rightarrow> world" where
  "setValue_state st res w =
     (case res of
        None \<Rightarrow> w\<lparr>kv_STATE := Some st, requests := ''STATE'' # requests w\<rparr>
      | Some e \<Rightarrow> w\<lparr>requests := ''STATE'' # requests w\<rparr>)"

text \<open>Pages pushed by other workers while this call is suspended.\<close>

definition others_push :: "page list \<Rightarrow> world \<Rightarrow> world" where
  "others_push ps w = w\<lparr>finishedPages := finishedPages w @ ps\<rparr>"

text \<open>Lines 90-94: the stored prefix is spliced off and the counters advance.\<close>

definition flush_pages_stored :: "page list \<Rightarrow> world \<Rightarrow> world" where
  "flush_pages_stored pagesToStore w =
     (let w1 = w\<lparr>finishedPages := drop (length pagesToStore) (finishedPages w)\<rparr>;
          w2 = w1\<lparr>state := (state w1)\<lparr>pageCount := pageCount (state w1) + int (length pagesToStore)\<rparr>\<rparr>
      in w2\<lparr>state := (state w2)\<lparr>storeCount := storeCount (state w2) + 1\<rparr>\<rparr>)"

text \<open>Line 100: the test for the store's size-limit error.\<close>

definition is_payload_too_large :: "js_error \<Rightarrow> bool" where
  "is_payload_too_large e =
     (case message e of
        None \<Rightarrow> False
      | Some m \<Rightarrow> m \<noteq> [] \<and> indexOf m ''The POST payload is too large'' \<ge> 0)"

text \<open>
  Lines 98-109: the \<open>catch\<close> and \<open>finally\<close> blocks. \<open>process.exit(1)\<close> ends the process at
  once, so the \<open>finally\<close> block does not run on that path.
\<close>

definition flush_failed :: "bool \<Rightarrow> js_error \<Rightarrow> world \<Rightarrow> outcome \<times> world" where
  "flush_failed force e w =
     (if is_payload_too_large e then (Exited 1, w)
      else if force then (Thrown e, w\<lparr>isStoring := False\<rparr>)
      else (Returned, w\<lparr>isStoring := False\<rparr>))"

text \<open>Lines 97 and 107-109 on the path without an exception.\<close>

definition flush_finish :: "nat \<Rightarrow> world \<Rightarrow> world" where
  "flush_finish t w = w\<lparr>lastStoredAt := t, isStoring := False\<rparr>"

definition maybeStoreData :: "bool \<Rightarrow> store_env \<Rightarrow> world \<Rightarrow> outcome \<times> world" where
  "maybeStoreData force env w =
     (case flush_begin force w of
        None \<Rightarrow> (Returned, w)
      | Some (key, pagesToStore, w1) \<Rightarrow>
          let w2 = others_push (arrived_during_pages_write env)
                     (setValue_pages key pagesToStore (pages_write env) w1)
          in (case pages_write env of
                Some e \<Rightarrow> flush_failed force e w2
              | None \<Rightarrow>
                  let w3 = flush_pages_stored pagesToStore w2;
                      w4 = others_push (arrived_during_state_write env)
                             (setValue_state (state w3) (state_write env) w3)
                  in (case state_write env of
                        Some e \<Rightarrow> flush_failed force e w4
                      | None \<Rightarrow> (Returned, flush_finish (now env) w4))))"

subsection \<open>The call piece by piece, and several calls at once\<close>

text \<open>
  The same function as the runtime runs it. An \<open>async\<close> function runs without interruption
  up to its next \<open>await\<close>; while it is suspended there, other code runs. A call of
  \<open>maybeStoreData\<close> is therefore in one of four places: it was just made, with its argument
  (\<open>Called\<close>); it is suspended at the \<open>await\<close> of line 88, with its key and its copy of the
  buffer; it is suspended at the \<open>await\<close> of line 95, with the state it sent; or it has
  ended.
\<close>

datatype flush_call =
    Called bool
  | At_pages_write bool string "page list"
  | At_state_write bool crawl_state
  | Finished outcome

text \<open>
  A call suspended at one of the two \<open>Apify.setValue\<close> calls is executing a storage write.
\<close>

fun writing :: "flush_call \<Rightarrow> bool" where
  "writing (At_pages_write force key ps) = True"
| "writing (At_state_write force st) = True"
| "writing _ = False"

text \<open>The call ended the process.\<close>

fun exited :: "flush_call \<Rightarrow> bool" where
  "exited (Finished (Exited n)) = True"
| "exited _ = False"

text \<open>
  One uninterrupted piece of lines 70-110: from the call to the \<open>await\<close> of line 88 or an
  early \<open>return\<close> (\<open>flush_begin\<close>); from the answer to the batch write to the \<open>await\<close> of line
  95, or through the \<open>catch\<close> and \<open>finally\<close> blocks; from the answer to the \<open>STATE\<close> write to
  the end. \<open>answer\<close> is what the store answers to the pending write, \<open>t\<close> the clock; a
  request and its effect on the store are recorded when its answer arrives.
\<close>

definition flush_step :: "js_error option \<Rightarrow> nat \<Rightarrow> flush_call \<Rightarrow> world \<Rightarrow> flush_call \<times> world" where
  "flush_step answer t c w =
     (case c of
        Called force \<Rightarrow>
          (case flush_begin force w of
             None \<Rightarrow> (Finished Returned, w)
           | Some (key, pagesToStore, w1) \<Rightarrow> (At_pages_write force key pagesToStore, w1))
      | At_pages_write force key pagesToStore \<Rightarrow>
          (let w2 = setValue_pages key pagesToStore answer w
           in case answer of
                Some e \<Rightarrow> (Finished (fst (flush_failed force e w2)), snd (flush_failed force e w2))
              | None \<Rightarrow>
                  (let w3 = flush_pages_stored pagesToStore w2
                   in (At_state_write force (state w3), w3)))
      | At_state_write force st \<Rightarrow>
          (let w4 = setValue_state st answer w
           in case answer of
                Some e \<Rightarrow> (Finished (fst (flush_failed force e w4)), snd (flush_failed force e w4))
              | None \<Rightarrow> (Finished Returned, flush_finish t w4))
      | Finished r \<Rightarrow> (Finished r, w))"

text \<open>
  A call on its own: its pieces in a row, with the pages that other workers push while it
  is suspended.
\<close>

definition steps_alone :: "bool \<Rightarrow> store_env \<Rightarrow> world \<Rightarrow> flush_call \<times> world" where
  "steps_alone force env w =
     (let (c1, w1) = flush_step None (now env) (Called force) w
      in if \<not> writing c1 then (c1, w1)
         else let (c2, w2) = flush_step (pages_write env) (now env) c1
                               (others_push (arrived_during_pages_write env) w1)
              in if \<not> writing c2 then (c2, w2)
                 else flush_step (state_write env) (now env) c2
                        (others_push (arrived_during_state_write env) w2))"

text \<open>
  Several calls at once. The runtime does one of three things at a time: a worker or
  \<open>Apify.main\<close> calls \<open>maybeStoreData(force)\<close>, and the call runs at once up to its first
  \<open>await\<close> or its \<open>return\<close>; the store answers the pending write of the call number \<open>i\<close>,
  which resumes; a worker pushes a page onto \<open>finishedPages\<close> (line 217). The calls made so
  far are kept in a list, in the order they were made. After \<open>process.exit\<close> nothing happens
  any more.
\<close>

datatype event =
    Trigger bool
  | Resume nat "js_error option" nat
  | Push page

fun apply_event :: "event \<Rightarrow> world \<times> flush_call list \<Rightarrow> world \<times> flush_call list" where
  "apply_event ev (w, cs) =
     (if list_ex exited cs then (w, cs)
      else case ev of
             Trigger force \<Rightarrow>
               (let (c, w1) = flush_step None 0 (Called force) w in (w1, cs @ [c]))
           | Resume i answer t \<Rightarrow>
               (if i < length cs
                then (let (c, w1) = flush_step answer t (cs ! i) w in (w1, cs[i := c]))
                else (w, cs))
           | Push p \<Rightarrow> (others_push [p] w, cs))"

fun run_events :: "event list \<Rightarrow> world \<times> flush_call list \<Rightarrow> world \<times> flush_call list" where
  "run_events [] cfg = cfg"
| "run_events (ev # evs) cfg = run_events evs (apply_event ev cfg)"

section \<open>The worker: \<open>workerFunc\<close> (lines 133-232)\<close>

text \<open>
  The input object, as \<open>INPUT_TYPE\<close> (lines 14-24) declares it: every field may be absent.
\<close>

record input =
  proxyUrls :: "string list option"
  avoidCache :: "bool option"
  cacheSizeMegabytes :: "int option"
  userAgents :: "string list option"
  concurrency :: "int option"
  sleepSecs :: "int option"
  compressedContent :: "bool option"
  storePagesInterval_in :: "int option"
  pageTimeoutSecs :: "int option"

text \<open>The object that the in-page script \<open>getSubtitleInfo\<close> returns (lines 189-197).\<close>

record subtitle_info =
  title :: "string option"
  subtitleURL :: "string option"

text \<open>
  Line 160 reads \<open>input.languages\<close>. \<open>INPUT_TYPE\<close> (lines 14-24) declares no such field and
  does not end in \<open>...\<close>, so an input that \<open>typeCheck\<close> accepts at line 116 has no property
  \<open>languages\<close>: the read gives \<open>undefined\<close> (\<open>None\<close>) for every input the program runs with.
\<close>

definition input_languages :: "input \<Rightarrow> int list option" where
  "input_languages inp = None"

text \<open>
  What the collaborators do during one call of \<open>workerFunc\<close>: the random draws, the clock,
  \<open>utils.redactUrl\<close>, and the result of each call that may throw, in the order of the code:
  \<open>Apify.browse\<close> (line 159), \<open>cookie.serialize\<close> and \<open>browser.setCookie\<close> (lines 160-166, with
  line 162 read as \<open>new Date(...)\<close>), \<open>webDriver.sleep\<close> (line 172), \<open>getCurrentUrl\<close>
  (line 175), the two \<open>executeScript\<close> calls (lines 199, 204), \<open>requestPromised\<close> (line 214)
  and \<open>browser.close\<close> (line 223); then what happens during the final \<open>maybeStoreData()\<close>.
  For the first \<open>executeScript\<close> the environment gives the \<open>href\<close>s of the anchors that
  \<open>querySelectorAll\<close> finds (line 178), or the exception of the call. \<open>join_TypeError\<close> is the
  error the engine throws for \<open>undefined.join\<close> at line 160, and \<open>regex_ReferenceError\<close> the
  one the page throws when the in-page script reads \<open>SUBSCENE_REGEX\<close> (line 182), which the
  program defines nowhere.
\<close>

record worker_env =
  rand_proxy :: nat
  rand_session :: nat
  rand_userAgent :: nat
  started_at :: nat
  redactUrl :: "string \<Rightarrow> string"
  browse_result :: "js_error option"
  join_TypeError :: js_error
  setCookie_result :: "js_error option"
  finished_at :: nat
  sleep_result :: "js_error option"
  currentUrl_result :: "js_error + string"
  anchors_result :: "js_error + string list"
  regex_ReferenceError :: js_error
  subtitleInfo_result :: "js_error + subtitle_info"
  request_result :: "js_error + string"
  close_result :: "js_error option"
  flush_env :: store_env

text \<open>
  Lines 31-39. \<open>Math.random\<close> is the draw \<open>r\<close> of the environment; every index below
  \<open>maxExclusive\<close> can come out.
\<close>

definition randomInt :: "nat \<Rightarrow> nat \<Rightarrow> nat" where
  "randomInt r maxExclusive = r mod maxExclusive"

definition getRandomElement :: "nat \<Rightarrow> 'a list option \<Rightarrow> 'a option" where
  "getRandomElement r array =
     (case array of
        None \<Rightarrow> None
      | Some xs \<Rightarrow> if length xs = 0 then None else Some (xs ! randomInt r (length xs)))"

text \<open>Lines 50-52.\<close>

definition completeProxyUrl :: "nat \<Rightarrow> string option \<Rightarrow> string option" where
  "completeProxyUrl r u =
     (case u of
        None \<Rightarrow> None
      | Some s \<Rightarrow> if s = [] then Some s
                 else Some (replace_all ''<randomSessionId>'' (show_nat (randomInt r 999999999)) s))"

text \<open>Line 221.\<close>

definition error_info :: "js_error \<Rightarrow> error_detail" where
  "error_info e =
     (case stack e of
        Some s \<Rightarrow> if s \<noteq> [] then Detail s
                 else (case message e of
                         Some m \<Rightarrow> if m \<noteq> [] then Detail m else Raw e
                       | None \<Rightarrow> Raw e)
      | None \<Rightarrow> (case message e of
                   Some m \<Rightarrow> if m \<noteq> [] then Detail m else Raw e
                 | None \<Rightarrow> Raw e))"

text \<open>Lines 134-142: the proxy, the user agent and the fresh page object.\<close>

definition new_page :: "input \<Rightarrow> worker_env \<Rightarrow> string \<Rightarrow> page" where
  "new_page inp env u =
     (let proxyUrlPattern = getRandomElement (rand_proxy env) (proxyUrls inp);
          proxyUrl = completeProxyUrl (rand_session env) proxyUrlPattern
      in \<lparr>url = u,
          loadingStartedAt = started_at env,
          userAgent = getRandomElement (rand_userAgent env) (userAgents inp),
          redactedProxyUrl =
            (case proxyUrl of
               None \<Rightarrow> None
             | Some s \<Rightarrow> if s = [] then None else Some (redactUrl env s)),
          loadingFinishedAt = None, loadedUrl = None, subtitleName = None, subtitle = None,
          errorInfo = None\<rparr>)"

text \<open>
  Lines 177-187 and 199: the in-page script \<open>getAllLinks\<close>. With no anchor on the page the
  loop body never runs and the result is the empty array; with an anchor, the first round
  of the loop reads \<open>SUBSCENE_REGEX\<close> and throws.
\<close>

definition getAllLinks :: "worker_env \<Rightarrow> js_error + string list" where
  "getAllLinks env =
     (case anchors_result env of
        Inl e \<Rightarrow> Inl e
      | Inr hrefs \<Rightarrow> if length hrefs = 0 then Inr [] else Inl (regex_ReferenceError env))"

text \<open>
  Lines 146-218, the body of the \<open>try\<close> block after a browser was opened. The result is the
  exception that left the block, if any, with the page object and the globals as they are
  then. The argument of \<open>cookie.serialize\<close> is evaluated first: \<open>input.languages.join(',')\<close>
  throws when \<open>input.languages\<close> is \<open>undefined\<close>. After it, the discovered links are pushed
  onto \<open>urls\<close> (lines 199-202), and the page is pushed onto \<open>finishedPages\<close> only inside the
  \<open>if ('title' in subtitleInfo)\<close> block (line 217).
\<close>

definition browse_page :: "input \<Rightarrow> worker_env \<Rightarrow> page \<Rightarrow> world \<Rightarrow> js_error option \<times> page \<times> world" where
  "browse_page inp env pg w =
     (case input_languages inp of
        None \<Rightarrow> (Some (join_TypeError env), pg, w)
      | Some languages \<Rightarrow>
     (case setCookie_result env of
        Some e \<Rightarrow> (Some e, pg, w)
      | None \<Rightarrow>
     let pg1 = pg\<lparr>loadingFinishedAt := Some (finished_at env)\<rparr> in
     (case (case sleepSecs inp of
              None \<Rightarrow> None
            | Some n \<Rightarrow> if n > 0 then sleep_result env else None) of
        Some e \<Rightarrow> (Some e, pg1, w)
      | None \<Rightarrow>
     (case currentUrl_result env of
        Inl e \<Rightarrow> (Some e, pg1, w)
      | Inr lu \<Rightarrow>
     let pg2 = pg1\<lparr>loadedUrl := Some lu\<rparr> in
     (case getAllLinks env of
        Inl e \<Rightarrow> (Some e, pg2, w)
      | Inr newURLs \<Rightarrow>
     let w1 = w\<lparr>urls := urls w @ newURLs\<rparr> in
     (case subtitleInfo_result env of
        Inl e \<Rightarrow> (Some e, pg2, w1)
      | Inr subtitleInfo \<Rightarrow>
     (case title subtitleInfo of
        None \<Rightarrow> (None, pg2, w1)
      | Some t \<Rightarrow>
     (case request_result env of
        Inl e \<Rightarrow> (Some e, pg2, w1)
      | Inr body \<Rightarrow>
     let pg3 = pg2\<lparr>subtitleName := Some t, subtitle := Some body\<rparr>
     in (None, pg3, w1\<lparr>finishedPages := finishedPages w1 @ [pg3]\<rparr>)))))))))"

text \<open>
  Lines 134-224: the page object is created, the \<open>try\<close> block runs, and the \<open>catch\<close> block
  writes the error detail into the page object. The result is that object as it is when
  the \<open>finally\<close> block starts, and the globals.
\<close>

definition load_page :: "input \<Rightarrow> worker_env \<Rightarrow> string \<Rightarrow> world \<Rightarrow> page \<times> world" where
  "load_page inp env u w =
     (let pg = new_page inp env u;
          (exn, pg1, w1) =
            (case browse_result env of
               Some e \<Rightarrow> (Some e, pg, w)
             | None \<Rightarrow> browse_page inp env pg w)
      in (case exn of
            None \<Rightarrow> (pg1, w1)
          | Some e \<Rightarrow> (pg1\<lparr>errorInfo := Some (error_info e)\<rparr>, w1)))"

text \<open>
  The whole worker: after \<open>load_page\<close> the browser, if one was opened, is closed (line 223;
  an exception of \<open>browser.close\<close> leaves the worker), and \<open>maybeStoreData()\<close> is awaited
  with no argument, so not forced (line 231).
\<close>

definition workerFunc :: "input \<Rightarrow> worker_env \<Rightarrow> string \<Rightarrow> world \<Rightarrow> outcome \<times> world" where
  "workerFunc inp env u w =
     (let (pg, w1) = load_page inp env u w
      in (case (if browse_result env = None then close_result env else None) of
            Some e \<Rightarrow> (Thrown e, w1)
          | None \<Rightarrow> maybeStoreData False (flush_env env) w1))"

section \<open>The scheduler: \<open>Apify.main\<close> (lines 113-257)\<close>

text \<open>
  Lines 115-122 reject an input that \<open>typeCheck\<close> does not accept for \<open>INPUT_TYPE\<close>; the
  record \<open>input\<close> holds the inputs that pass.
\<close>

definition SUBSCENE_START :: string where
  "SUBSCENE_START = ''https://subscene.com/browse''"

text \<open>
  Lines 56-66: the module-level variables when the module is loaded, with the store as the
  earlier runs left it. \<open>state\<close> is assigned at line 130 before it is read.
\<close>

definition module_init :: "nat \<Rightarrow> crawl_state option \<Rightarrow> (string \<times> page list) list \<Rightarrow> world" where
  "module_init t stored_state stored_pages =
     \<lparr>state = DEFAULT_STATE, finishedPages = [], lastStoredAt = t, isStoring = False,
      storePagesInterval = 50, urls = [],
      kv_STATE = stored_state, kv_PAGES = stored_pages, requests = [],
      queued = [], dispatched = []\<rparr>"

text \<open>Line 127.\<close>

definition apply_storePagesInterval :: "input \<Rightarrow> world \<Rightarrow> world" where
  "apply_storePagesInterval inp w =
     (case storePagesInterval_in inp of
        None \<Rightarrow> w
      | Some n \<Rightarrow> if n > 0 then w\<lparr>storePagesInterval := n\<rparr> else w)"

text \<open>Line 130.\<close>

definition load_state :: "world \<Rightarrow> world" where
  "load_state w =
     (case kv_STATE w of
        None \<Rightarrow> w\<lparr>state := DEFAULT_STATE\<rparr>
      | Some st \<Rightarrow> w\<lparr>state := st\<rparr>)"

text \<open>Line 238: the second argument of \<open>async.queue\<close>.\<close>

definition queue_concurrency :: "input \<Rightarrow> int" where
  "queue_concurrency inp = (case concurrency inp of None \<Rightarrow> 1 | Some c \<Rightarrow> if c > 0 then c else 1)"

text \<open>Lines 241-244: \<open>urls.splice(0, state.pageCount)\<close>.\<close>

definition skip_crawled :: "world \<Rightarrow> world" where
  "skip_crawled w =
     (if pageCount (state w) > 0 then w\<lparr>urls := drop (nat (pageCount (state w))) (urls w)\<rparr> else w)"

text \<open>
  The queue with one worker at a time, waiting for the promise each worker returns: the
  tasks run in the order they were pushed, the \<open>i\<close>-th with the environment \<open>envs i\<close>. An exception of a worker goes to
  \<open>urlFinishedCallback\<close> (lines 234-236), which logs it; \<open>process.exit\<close> ends everything.
  Nothing in \<open>workerFunc\<close> pushes onto the queue, so it is an argument, not a part of the
  globals.
\<close>

fun run_queue :: "input \<Rightarrow> (nat \<Rightarrow> worker_env) \<Rightarrow> nat \<Rightarrow> string list \<Rightarrow> world \<Rightarrow> outcome \<times> world" where
  "run_queue inp envs i [] w = (Returned, w)"
| "run_queue inp envs i (u # q) w =
     (case workerFunc inp (envs i) u (w\<lparr>dispatched := dispatched w @ [u]\<rparr>) of
        (Exited c, w1) \<Rightarrow> (Exited c, w1)
      | (Returned, w1) \<Rightarrow> run_queue inp envs (Suc i) q w1
      | (Thrown e, w1) \<Rightarrow> run_queue inp envs (Suc i) q w1)"

text \<open>
  Lines 125-130 and 241-244 for a list of seed URLs: the globals when the queue is about
  to be filled.
\<close>

definition crawl_prepare :: "string list \<Rightarrow> input \<Rightarrow> nat \<Rightarrow> crawl_state option
    \<Rightarrow> (string \<times> page list) list \<Rightarrow> world" where
  "crawl_prepare seeds inp t stored_state stored_pages =
     (let w0 = (module_init t stored_state stored_pages)\<lparr>urls := seeds\<rparr>;
          w1 = apply_storePagesInterval inp w0;
          w2 = load_state w1
      in skip_crawled w2)"

text \<open>
  Lines 245-256: the URLs left are pushed onto the queue, the queue runs until it is
  drained, and \<open>maybeStoreData(true)\<close> is called; \<open>final_env\<close> is the environment of that
  last call.
\<close>

definition crawl :: "string list \<Rightarrow> input \<Rightarrow> nat \<Rightarrow> crawl_state option \<Rightarrow> (string \<times> page list) list
    \<Rightarrow> (nat \<Rightarrow> worker_env) \<Rightarrow> store_env \<Rightarrow> outcome \<times> world" where
  "crawl seeds inp t stored_state stored_pages envs final_env =
     (let w3 = crawl_prepare seeds inp t stored_state stored_pages
      in if length (urls w3) > 0
         then (let w4 = w3\<lparr>queued := queued w3 @ urls w3\<rparr>
               in (case run_queue inp envs 0 (urls w3) w4 of
                     (Exited c, w5) \<Rightarrow> (Exited c, w5)
                   | (Returned, w5) \<Rightarrow> maybeStoreData True final_env w5
                   | (Thrown e, w5) \<Rightarrow> maybeStoreData True final_env w5))
         else maybeStoreData True final_env w3)"

text \<open>Line 125: the one seed of the program.\<close>

definition main :: "input \<Rightarrow> nat \<Rightarrow> crawl_state option \<Rightarrow> (string \<times> page list) list
    \<Rightarrow> (nat \<Rightarrow> worker_env) \<Rightarrow> store_env \<Rightarrow> outcome \<times> world" where
  "main = crawl [SUBSCENE_START]"

section \<open>Notions used in the properties\<close>

text \<open>The call ended in \<open>process.exit\<close>.\<close>

fun is_exit :: "outcome \<Rightarrow> bool" where
  "is_exit (Exited c) = True"
| "is_exit _ = False"

text \<open>The number of page records in a list of stored batches.\<close>

definition total_records :: "(string \<times> page list) list \<Rightarrow> int" where
  "total_records bs = sum_list (map (\<lambda>b. int (length (snd b))) bs)"

text \<open>
  The counters in memory agree with the store: \<open>pageCount\<close> is the number of records in
  the batches written and \<open>storeCount\<close> the number of batches.
\<close>

definition counters_match :: "world \<Rightarrow> bool" where
  "counters_match w \<longleftrightarrow>
     pageCount (state w) = total_records (kv_PAGES w) \<and>
     storeCount (state w) = int (length (kv_PAGES w))"

text \<open>The globals after a call of \<open>maybeStoreData\<close>.\<close>

abbreviation after_flush :: "bool \<Rightarrow> store_env \<Rightarrow> world \<Rightarrow> world" where
  "after_flush force env w \<equiv> snd (maybeStoreData force env w)"

text \<open>
  The number of calls suspended at a storage write is one while \<open>isStoring\<close> is set and the
  process runs, and zero otherwise.
\<close>

definition one_writer :: "world \<times> flush_call list \<Rightarrow> bool" where
  "one_writer cfg \<longleftrightarrow>
     length (filter writing (snd cfg)) =
       (if isStoring (fst cfg) \<and> \<not> list_ex exited (snd cfg) then 1 else 0)"

text \<open>
  The number that a string of decimal digits writes, and the number that a batch key
  carries after its prefix of six characters.
\<close>

definition digit_value :: "char \<Rightarrow> nat" where
  "digit_value c = of_char c - 48"

definition read_nat :: "string \<Rightarrow> nat" where
  "read_nat s = foldl (\<lambda>a c. 10 * a + digit_value c) 0 s"

definition key_number :: "string \<Rightarrow> int" where
  "key_number k = int (read_nat (drop 6 k))"

text \<open>
  \<open>storeCount\<close> is not negative, no key written so far carries a number above \<open>storeCount\<close>,
  and no key was written twice.
\<close>

definition keys_fresh :: "world \<Rightarrow> bool" where
  "keys_fresh w \<longleftrightarrow>
     0 \<le> storeCount (state w) \<and>
     list_all (\<lambda>b. key_number (fst b) \<le> storeCount (state w)) (kv_PAGES w) \<and>
     distinct (map fst (kv_PAGES w))"



section \<open>Example inputs\<close>

text \<open>
  Concrete pages, store answers, worker environments, inputs and globals, at which the
  properties below are evaluated.
\<close>

definition example_page :: "string \<Rightarrow> page" where
  "example_page u =
     \<lparr>url = u, loadingStartedAt = 0, userAgent = None, redactedProxyUrl = None,
      loadingFinishedAt = Some 1, loadedUrl = Some u, subtitleName = Some ''title'',
      subtitle = Some ''body'', errorInfo = None\<rparr>"

definition env_ok :: store_env where
  "env_ok = \<lparr>pages_write = None, arrived_during_pages_write = [], state_write = None,
     arrived_during_state_write = [], now = 7\<rparr>"

definition network_error :: js_error where
  "network_error = \<lparr>message = Some ''socket hang up'', stack = None\<rparr>"

definition env_pages_fail :: store_env where
  "env_pages_fail = env_ok\<lparr>pages_write := Some network_error\<rparr>"

definition buffered :: "int \<Rightarrow> page list \<Rightarrow> world" where
  "buffered n ps = (module_init 0 None [])\<lparr>finishedPages := ps, storePagesInterval := n\<rparr>"

definition env_state_fail :: store_env where
  "env_state_fail = env_ok\<lparr>state_write := Some network_error\<rparr>"

definition payload_error :: js_error where
  "payload_error = \<lparr>message = Some ''413: The POST payload is too large'', stack = None\<rparr>"

definition env_pages_too_large :: store_env where
  "env_pages_too_large = env_ok\<lparr>pages_write := Some payload_error\<rparr>"

definition env_state_too_large :: store_env where
  "env_state_too_large = env_ok\<lparr>state_write := Some payload_error\<rparr>"

definition two_pages :: world where
  "two_pages = buffered 2 [example_page ''a'', example_page ''b'']"

definition busy :: world where
  "busy = two_pages\<lparr>isStoring := True\<rparr>"

definition no_input :: input where
  "no_input = \<lparr>proxyUrls = None, avoidCache = None, cacheSizeMegabytes = None, userAgents = None,
     concurrency = None, sleepSecs = None, compressedContent = None, storePagesInterval_in = None,
     pageTimeoutSecs = None\<rparr>"

definition subtitle_worker :: "string list \<Rightarrow> store_env \<Rightarrow> worker_env" where
  "subtitle_worker links fenv =
     \<lparr>rand_proxy = 0, rand_session = 0, rand_userAgent = 0, started_at = 1,
      redactUrl = (\<lambda>s. s), browse_result = None,
      join_TypeError = \<lparr>message = Some ''Cannot read property join of undefined'',
                         stack = Some ''TypeError: Cannot read property join of undefined''\<rparr>,
      setCookie_result = None, finished_at = 2,
      sleep_result = None, currentUrl_result = Inr ''https://subscene.com/browse'',
      anchors_result = Inr links,
      regex_ReferenceError = \<lparr>message = Some ''SUBSCENE_REGEX is not defined'',
                               stack = Some ''ReferenceError: SUBSCENE_REGEX is not defined''\<rparr>,
      subtitleInfo_result = Inr \<lparr>title = Some ''title'', subtitleURL = Some ''https://subscene.com/dl''\<rparr>,
      request_result = Inr ''body'', close_result = None, flush_env = fenv\<rparr>"

definition one_page :: world where
  "one_page = buffered 50 [example_page ''a'']"

definition interval_input :: "int \<Rightarrow> input" where
  "interval_input n = no_input\<lparr>storePagesInterval_in := Some n\<rparr>"

definition two_seeds :: "string list" where
  "two_seeds = [SUBSCENE_START, ''https://subscene.com/subtitles/x'']"

definition too_large_worker :: worker_env where
  "too_large_worker = subtitle_worker [] env_pages_too_large"

definition failing_worker :: "store_env \<Rightarrow> worker_env" where
  "failing_worker fenv = (subtitle_worker [] fenv)\<lparr>browse_result := Some network_error\<rparr>"

definition start_world :: world where
  "start_world = crawl_prepare [SUBSCENE_START] no_input 0 None []"

definition resumed :: "int \<Rightarrow> crawl_state" where
  "resumed k = \<lparr>storeCount = 1, pageCount = k\<rparr>"

definition three_seeds :: "string list" where
  "three_seeds = [SUBSCENE_START, ''https://subscene.com/subtitles/x'',
     ''https://subscene.com/subtitles/y'']"

definition overlapping_schedule :: "event list" where
  "overlapping_schedule =
     [Trigger False, Trigger True, Push (example_page ''c''), Resume 0 None 5, Trigger False,
      Resume 0 None 6]"

definition second_buffer :: world where
  "second_buffer =
     others_push [example_page ''c'', example_page ''d''] (after_flush False env_ok two_pages)"

section \<open>Facts about the flush\<close>

lemma flush_begin_None_iff:
  "flush_begin force w = None \<longleftrightarrow>
     finishedPages w = [] \<or> (\<not> force \<and> int (length (finishedPages w)) < storePagesInterval w) \<or> isStoring w"
  by (simp add: flush_begin_def Let_def)

lemma flush_begin_Some:
  "flush_begin force w = Some (k, ps, w1) \<Longrightarrow>
     k = batch_key (state w) \<and> ps = finishedPages w \<and> w1 = w\<lparr>isStoring := True\<rparr>"
  by (auto simp: flush_begin_def Let_def split: if_splits)

lemma flush_begin_cases:
  obtains (skip) "flush_begin force w = None"
  | (start) "flush_begin force w = Some (batch_key (state w), finishedPages w, w\<lparr>isStoring := True\<rparr>)"
           "finishedPages w \<noteq> []" "\<not> isStoring w"
  by (cases "flush_begin force w") (auto simp: flush_begin_def Let_def split: if_splits)

lemma maybeStoreData_skip:
  "flush_begin force w = None \<Longrightarrow> maybeStoreData force env w = (Returned, w)"
  by (simp add: maybeStoreData_def)

lemma flush_failed_fst:
  "fst (flush_failed force e w) =
     (if is_payload_too_large e then Exited 1 else if force then Thrown e else Returned)"
  by (simp add: flush_failed_def)

lemma flush_failed_snd:
  "snd (flush_failed force e w) = (if is_payload_too_large e then w else w\<lparr>isStoring := False\<rparr>)"
  by (simp add: flush_failed_def)

lemma maybeStoreData_pages_failed:
  assumes "flush_begin force w \<noteq> None" and "pages_write env = Some e"
  shows "fst (maybeStoreData force env w) =
           (if is_payload_too_large e then Exited 1 else if force then Thrown e else Returned)"
    and "state (snd (maybeStoreData force env w)) = state w"
    and "finishedPages (snd (maybeStoreData force env w)) =
           finishedPages w @ arrived_during_pages_write env"
    and "kv_PAGES (snd (maybeStoreData force env w)) = kv_PAGES w"
    and "kv_STATE (snd (maybeStoreData force env w)) = kv_STATE w"
    and "requests (snd (maybeStoreData force env w)) = batch_key (state w) # requests w"
    and "isStoring (snd (maybeStoreData force env w)) = is_payload_too_large e"
  using assms
  by (cases force w rule: flush_begin_cases;
      simp add: maybeStoreData_def setValue_pages_def others_push_def flush_failed_fst
        flush_failed_snd)+

lemma maybeStoreData_pages_stored:
  assumes "flush_begin force w \<noteq> None" and "pages_write env = None"
  shows "fst (maybeStoreData force env w) =
           (case state_write env of
              None \<Rightarrow> Returned
            | Some e \<Rightarrow> if is_payload_too_large e then Exited 1
                        else if force then Thrown e else Returned)"
    and "state (snd (maybeStoreData force env w)) =
           (state w)\<lparr>pageCount := pageCount (state w) + int (length (finishedPages w)),
                     storeCount := storeCount (state w) + 1\<rparr>"
    and "finishedPages (snd (maybeStoreData force env w)) =
           arrived_during_pages_write env @ arrived_during_state_write env"
    and "kv_PAGES (snd (maybeStoreData force env w)) =
           (batch_key (state w), finishedPages w) # kv_PAGES w"
    and "kv_STATE (snd (maybeStoreData force env w)) =
           (case state_write env of
              None \<Rightarrow> Some (state (snd (maybeStoreData force env w)))
            | Some e \<Rightarrow> kv_STATE w)"
    and "requests (snd (maybeStoreData force env w)) =
           ''STATE'' # batch_key (state w) # requests w"
    and "isStoring (snd (maybeStoreData force env w)) =
           (case state_write env of None \<Rightarrow> False | Some e \<Rightarrow> is_payload_too_large e)"
  using assms
  by (cases force w rule: flush_begin_cases;
      simp add: maybeStoreData_def setValue_pages_def others_push_def flush_pages_stored_def
        setValue_state_def flush_finish_def flush_failed_fst flush_failed_snd Let_def
        split: option.splits)+

lemma maybeStoreData_frame:
  "urls (snd (maybeStoreData force env w)) = urls w"
  "queued (snd (maybeStoreData force env w)) = queued w"
  "dispatched (snd (maybeStoreData force env w)) = dispatched w"
  "storePagesInterval (snd (maybeStoreData force env w)) = storePagesInterval w"
  by (cases force w rule: flush_begin_cases;
      simp add: maybeStoreData_def setValue_pages_def others_push_def flush_pages_stored_def
        setValue_state_def flush_finish_def flush_failed_snd Let_def
        split: option.splits)+

lemma isStoring_kept:
  "isStoring (setValue_pages k ps r w) = isStoring w"
  "isStoring (setValue_state st r w) = isStoring w"
  "isStoring (others_push a w) = isStoring w"
  "isStoring (flush_pages_stored ps w) = isStoring w"
  by (simp_all add: setValue_pages_def setValue_state_def others_push_def flush_pages_stored_def
        Let_def split: option.splits)

lemma maybeStoreData_requests:
  "requests (snd (maybeStoreData force env w)) \<noteq> requests w \<longleftrightarrow> flush_begin force w \<noteq> None"
proof (cases "flush_begin force w = None")
  case True
  then show ?thesis by (simp add: maybeStoreData_skip)
next
  case False
  then show ?thesis
    by (cases "pages_write env")
       (simp_all add: maybeStoreData_pages_failed(6) maybeStoreData_pages_stored(6))
qed

lemma total_records_Cons: "total_records ((k, ps) # bs) = int (length ps) + total_records bs"
  by (simp add: total_records_def)

lemma maybeStoreData_counters_match:
  assumes "counters_match w"
  shows "counters_match (after_flush force env w)"
proof (cases "flush_begin force w = None")
  case True
  with assms show ?thesis by (simp add: maybeStoreData_skip)
next
  case False
  show ?thesis
  proof (cases "pages_write env")
    case None
    with False assms show ?thesis
      by (simp add: counters_match_def maybeStoreData_pages_stored(2,4) total_records_Cons)
  next
    case (Some e)
    with False assms show ?thesis
      by (simp add: counters_match_def maybeStoreData_pages_failed(2,4))
  qed
qed

lemma maybeStoreData_mono:
  "pageCount (state w) \<le> pageCount (state (after_flush force env w))"
  "storeCount (state w) \<le> storeCount (state (after_flush force env w))"
proof -
  have "pageCount (state w) \<le> pageCount (state (after_flush force env w)) \<and>
        storeCount (state w) \<le> storeCount (state (after_flush force env w))"
  proof (cases "flush_begin force w = None")
    case True
    then show ?thesis by (simp add: maybeStoreData_skip)
  next
    case False
    then show ?thesis
      by (cases "pages_write env")
         (simp_all add: maybeStoreData_pages_stored(2) maybeStoreData_pages_failed(2))
  qed
  then show "pageCount (state w) \<le> pageCount (state (after_flush force env w))"
    and "storeCount (state w) \<le> storeCount (state (after_flush force env w))"
    by simp_all
qed

lemma is_exit_flush_failed:
  "is_exit (if is_payload_too_large e then Exited 1 else if force then Thrown e else Returned)
     = is_payload_too_large e"
  by simp

lemma maybeStoreData_flag:
  assumes "\<not> isStoring w" and "\<not> is_exit (fst (maybeStoreData force env w))"
  shows "\<not> isStoring (after_flush force env w)"
proof (cases "flush_begin force w = None")
  case True
  with assms show ?thesis by (simp add: maybeStoreData_skip)
next
  case False
  show ?thesis
  proof (cases "pages_write env")
    case None
    with False assms show ?thesis
      by (cases "state_write env")
         (simp_all add: maybeStoreData_pages_stored(1,7) split: if_splits)
  next
    case (Some e)
    with False assms show ?thesis
      by (simp add: maybeStoreData_pages_failed(1,7) split: if_splits)
  qed
qed

lemma flush_pages_stored_prefix:
  "finishedPages (flush_pages_stored ps (w\<lparr>finishedPages := ps @ rest\<rparr>)) = rest"
  by (simp add: flush_pages_stored_def Let_def)

lemma forced_flush_begins:
  "finishedPages w \<noteq> [] \<Longrightarrow> \<not> isStoring w \<Longrightarrow> flush_begin True w \<noteq> None"
  by (simp add: flush_begin_None_iff)

lemma forced_flush_returned_empties:
  assumes "\<not> isStoring w" and "fst (maybeStoreData True env w) = Returned"
    and "arrived_during_pages_write env = []" and "arrived_during_state_write env = []"
  shows "finishedPages (after_flush True env w) = []"
proof (cases "flush_begin True w = None")
  case True
  with assms(1) have "finishedPages w = []"
    by (simp add: flush_begin_None_iff)
  with True show ?thesis by (simp add: maybeStoreData_skip)
next
  case False
  show ?thesis
  proof (cases "pages_write env")
    case None
    with False assms(3,4) show ?thesis
      by (simp add: maybeStoreData_pages_stored(3))
  next
    case (Some e)
    with False assms(2) show ?thesis
      by (simp add: maybeStoreData_pages_failed(1) split: if_splits)
  qed
qed



section \<open>Facts about the batch key\<close>

lemma show_int_small: "show_int 1 = ''1''" "show_int 2 = ''2''"
  by (simp_all add: show_int_def show_nat.simps digit_char_def)

lemma leftPad_one_digit: "leftPad [c] 9 z = [z, z, z, z, z, z, z, z, c]"
  by (simp add: leftPad_def eval_nat_numeral)

lemma DEFAULT_STATE_fields: "storeCount DEFAULT_STATE = 0" "pageCount DEFAULT_STATE = 0"
  by (simp_all add: DEFAULT_STATE_def)

lemma batch_key_first: "batch_key DEFAULT_STATE = ''PAGES-000000001''"
  by (simp add: batch_key_def DEFAULT_STATE_def show_int_small leftPad_one_digit)

lemma batch_key_second: "storeCount st = 1 \<Longrightarrow> batch_key st = ''PAGES-000000002''"
  by (simp add: batch_key_def show_int_small leftPad_one_digit)

lemma batch_key_initial: "storeCount st = 0 \<Longrightarrow> batch_key st = ''PAGES-000000001''"
  by (simp add: batch_key_def show_int_small leftPad_one_digit)

lemma digit_value_digit_char: "digit_value (digit_char n) = n mod 10"
proof -
  have "n mod 10 = 0 \<or> n mod 10 = 1 \<or> n mod 10 = 2 \<or> n mod 10 = 3 \<or> n mod 10 = 4 \<or>
        n mod 10 = 5 \<or> n mod 10 = 6 \<or> n mod 10 = 7 \<or> n mod 10 = 8 \<or> n mod 10 = 9"
    by presburger
  then show ?thesis
    by (elim disjE) (simp_all add: digit_value_def digit_char_def)
qed

lemma read_nat_snoc: "read_nat (s @ [c]) = 10 * read_nat s + digit_value c"
  by (simp add: read_nat_def)

lemma read_nat_show_nat: "read_nat (show_nat n) = n"
proof (induction n rule: show_nat.induct)
  case (1 n)
  show ?case
  proof (cases "n < 10")
    case True
    then show ?thesis
      by (subst show_nat.simps) (simp add: read_nat_def digit_value_digit_char)
  next
    case False
    with "1.IH" have "read_nat (show_nat (n div 10)) = n div 10" by simp
    with False show ?thesis
      by (subst show_nat.simps) (simp add: read_nat_snoc digit_value_digit_char)
  qed
qed

lemma read_nat_zeros: "read_nat (replicate m (CHR ''0'') @ s) = read_nat s"
proof -
  have z: "foldl (\<lambda>a c. 10 * a + digit_value c) 0 (replicate m (CHR ''0'')) = 0"
    by (induction m) (simp_all add: digit_value_def)
  show ?thesis by (simp add: read_nat_def z)
qed

lemma key_number_batch_key:
  "0 \<le> storeCount st \<Longrightarrow> key_number (batch_key st) = storeCount st + 1"
  by (simp add: key_number_def batch_key_def leftPad_def show_int_def read_nat_zeros
        read_nat_show_nat)

lemma batch_key_prefix: "take 6 (batch_key st) = ''PAGES-''"
  by (simp add: batch_key_def)

lemma length_show_nat: "n < 10 ^ k \<Longrightarrow> 0 < k \<Longrightarrow> length (show_nat n) \<le> k"
proof (induction k arbitrary: n)
  case 0
  then show ?case by simp
next
  case (Suc k)
  show ?case
  proof (cases "n < 10")
    case True
    then show ?thesis by (subst show_nat.simps) simp
  next
    case False
    with Suc.prems have k: "0 < k" by (cases k) auto
    from Suc.prems have "n div 10 < 10 ^ k" by (simp add: less_mult_imp_div_less mult.commute)
    from Suc.IH [OF this k] False show ?thesis
      by (subst show_nat.simps) simp
  qed
qed

lemma batch_key_length:
  assumes "0 \<le> storeCount st" and "storeCount st + 1 < 1000000000"
  shows "length (batch_key st) = 15"
proof -
  have "nat (storeCount st + 1) < 10 ^ 9" using assms by simp
  then have "length (show_nat (nat (storeCount st + 1))) \<le> 9"
    by (rule length_show_nat) simp
  with assms show ?thesis
    by (simp add: batch_key_def leftPad_def show_int_def)
qed

lemma new_key_unused:
  assumes "keys_fresh w"
  shows "batch_key (state w) \<notin> fst ` set (kv_PAGES w)"
proof
  assume "batch_key (state w) \<in> fst ` set (kv_PAGES w)"
  then obtain b where b: "b \<in> set (kv_PAGES w)" and k: "fst b = batch_key (state w)" by auto
  from assms b have "key_number (fst b) \<le> storeCount (state w)"
    by (simp add: keys_fresh_def list_all_iff)
  moreover from assms have "key_number (batch_key (state w)) = storeCount (state w) + 1"
    by (simp add: keys_fresh_def key_number_batch_key)
  ultimately show False using k by simp
qed

lemma maybeStoreData_keys_fresh:
  assumes "keys_fresh w"
  shows "keys_fresh (after_flush force env w)"
proof (cases "flush_begin force w = None")
  case True
  with assms show ?thesis by (simp add: maybeStoreData_skip)
next
  case False
  show ?thesis
  proof (cases "pages_write env")
    case (Some e)
    with False assms show ?thesis
      by (simp add: keys_fresh_def maybeStoreData_pages_failed(2,4))
  next
    case None
    have old: "list_all (\<lambda>b. key_number (fst b) \<le> storeCount (state w) + 1) (kv_PAGES w)"
      using assms by (auto simp: keys_fresh_def list_all_iff)
    have new: "key_number (batch_key (state w)) = storeCount (state w) + 1"
      using assms by (simp add: keys_fresh_def key_number_batch_key)
    from None False assms old new new_key_unused [OF assms] show ?thesis
      by (simp add: keys_fresh_def maybeStoreData_pages_stored(2,4))
  qed
qed

lemma stored_batch_found:
  "keys_fresh w \<Longrightarrow> (k, ps) \<in> set (kv_PAGES w) \<Longrightarrow> map_of (kv_PAGES w) k = Some ps"
  by (simp add: keys_fresh_def)

section \<open>Facts about interleaved calls\<close>

lemma others_push_setValue_pages:
  "others_push a (setValue_pages k ps r w) = setValue_pages k ps r (others_push a w)"
  by (cases w) (simp add: others_push_def setValue_pages_def split: option.splits)

lemma others_push_setValue_state:
  "others_push a (setValue_state st r w) = setValue_state st r (others_push a w)"
  by (cases w) (simp add: others_push_def setValue_state_def split: option.splits)

lemma state_others_push: "state (others_push a w) = state w"
  by (simp add: others_push_def)

lemma others_push_flag: "others_push a (w\<lparr>isStoring := b\<rparr>) = (others_push a w)\<lparr>isStoring := b\<rparr>"
  by (cases w) (simp add: others_push_def)

lemma steps_alone_eq:
  "steps_alone force env w =
     (Finished (fst (maybeStoreData force env w)), snd (maybeStoreData force env w))"
proof (cases force w rule: flush_begin_cases)
  case skip
  then show ?thesis
    by (simp add: steps_alone_def flush_step_def maybeStoreData_def)
next
  case start
  show ?thesis
  proof (cases "pages_write env")
    case (Some e)
    with start(1) show ?thesis
      by (simp add: steps_alone_def flush_step_def maybeStoreData_def
            others_push_setValue_pages Let_def)
  next
    case None
    with start(1) show ?thesis
      by (cases "state_write env")
         (simp_all add: steps_alone_def flush_step_def maybeStoreData_def
            others_push_setValue_pages others_push_setValue_state Let_def)
  qed
qed

lemma filter_update_count:
  "i < length cs \<Longrightarrow>
     length (filter P (cs[i := c])) + (if P (cs ! i) then 1 else 0) =
     length (filter P cs) + (if P c then 1 else 0)"
proof (induction cs arbitrary: i)
  case Nil
  then show ?case by simp
next
  case (Cons x xs)
  show ?case
  proof (cases i)
    case 0
    then show ?thesis by simp
  next
    case (Suc j)
    with Cons.prems have "j < length xs" by simp
    from Cons.IH [OF this] Suc show ?thesis by simp
  qed
qed

lemma list_ex_update:
  "i < length cs \<Longrightarrow> \<not> list_ex P cs \<Longrightarrow> list_ex P (cs[i := c]) = P c"
  by (auto simp: list_ex_iff set_conv_nth nth_list_update
           dest: set_update_subset_insert [THEN subsetD])

lemma flush_step_Called:
  "flush_step answer t (Called force) w =
     (if flush_begin force w = None then (Finished Returned, w)
      else (At_pages_write force (batch_key (state w)) (finishedPages w), w\<lparr>isStoring := True\<rparr>))"
  by (cases force w rule: flush_begin_cases) (simp_all add: flush_step_def)

lemma flush_step_Finished: "flush_step answer t (Finished r) w = (Finished r, w)"
  by (simp add: flush_step_def)

lemma flush_step_writing:
  assumes "writing c"
  shows "(writing (fst (flush_step answer t c w)) \<and> \<not> exited (fst (flush_step answer t c w)) \<and>
          isStoring (snd (flush_step answer t c w)) = isStoring w) \<or>
         (\<not> writing (fst (flush_step answer t c w)) \<and>
          (exited (fst (flush_step answer t c w)) \<or> \<not> isStoring (snd (flush_step answer t c w))))"
proof (cases c)
  case (At_pages_write force key ps)
  then show ?thesis
    by (cases answer)
       (simp_all add: flush_step_def flush_failed_def isStoring_kept Let_def)
next
  case (At_state_write force st)
  then show ?thesis
    by (cases answer)
       (simp_all add: flush_step_def flush_failed_def flush_finish_def isStoring_kept Let_def)
qed (use assms in simp_all)

lemma flush_step_one_writer:
  assumes "n = (if isStoring w then 1 else (0::nat))" and "(if writing c then 1 else 0) \<le> n"
  shows "\<not> exited (fst (flush_step answer t c w)) \<longrightarrow>
           n + (if writing (fst (flush_step answer t c w)) then 1 else 0) =
           (if isStoring (snd (flush_step answer t c w)) then 1 else 0) + (if writing c then 1 else 0)"
    and "exited (fst (flush_step answer t c w)) \<longrightarrow>
           \<not> writing (fst (flush_step answer t c w)) \<and> (writing c \<or> exited c)"
proof -
  show "\<not> exited (fst (flush_step answer t c w)) \<longrightarrow>
           n + (if writing (fst (flush_step answer t c w)) then 1 else 0) =
           (if isStoring (snd (flush_step answer t c w)) then 1 else 0) + (if writing c then 1 else 0)"
  proof (cases "writing c")
    case True
    with assms have "isStoring w" "n = 1" by (auto split: if_splits)
    with True flush_step_writing [OF True, of answer t w] show ?thesis by auto
  next
    case False
    then show ?thesis
      using assms(1)
      by (cases c) (auto simp: flush_step_Called flush_step_Finished flush_begin_None_iff)
  qed
  show "exited (fst (flush_step answer t c w)) \<longrightarrow>
           \<not> writing (fst (flush_step answer t c w)) \<and> (writing c \<or> exited c)"
  proof (cases c)
    case (Called force)
    then show ?thesis by (simp add: flush_step_Called)
  next
    case (At_pages_write force key ps)
    then show ?thesis by (cases answer) (simp_all add: flush_step_def Let_def)
  next
    case (At_state_write force st)
    then show ?thesis by (cases answer) (simp_all add: flush_step_def Let_def)
  next
    case (Finished r)
    then show ?thesis by (simp add: flush_step_Finished)
  qed
qed

lemma apply_event_one_writer:
  assumes "one_writer cfg"
  shows "one_writer (apply_event ev cfg)"
proof (cases cfg)
  case (Pair w cs)
  show ?thesis
  proof (cases "list_ex exited cs")
    case True
    with assms Pair show ?thesis by simp
  next
    case alive: False
    from assms Pair alive
    have n: "length (filter writing cs) = (if isStoring w then 1 else 0)"
      by (simp add: one_writer_def)
    show ?thesis
    proof (cases ev)
      case (Trigger force)
      let ?s = "flush_step None 0 (Called force) w"
      have 1: "\<not> exited (fst ?s)" by (simp add: flush_step_Called)
      have 2: "length (filter writing cs) + (if writing (fst ?s) then 1 else 0) =
               (if isStoring (snd ?s) then 1 else 0)"
        using flush_step_one_writer(1) [OF n, of "Called force" None 0] 1 by simp
      show ?thesis
        using Pair alive Trigger 1 2
        by (auto simp: one_writer_def split_beta Let_def split: if_splits)
    next
      case (Resume i answer t)
      show ?thesis
      proof (cases "i < length cs")
        case False
        with assms Pair alive Resume show ?thesis by simp
      next
        case True
        let ?c = "cs ! i"
        let ?s = "flush_step answer t ?c w"
        have le: "(if writing ?c then 1 else 0) \<le> length (filter writing cs)"
          using True by (auto simp: filter_empty_conv intro: Suc_leI length_pos_if_in_set)
        have cnt: "length (filter writing (cs[i := fst ?s])) + (if writing ?c then 1 else 0) =
                   length (filter writing cs) + (if writing (fst ?s) then 1 else 0)"
          by (rule filter_update_count [OF True])
        have ex: "list_ex exited (cs[i := fst ?s]) = exited (fst ?s)"
          by (rule list_ex_update [OF True alive])
        show ?thesis
        proof (cases "exited (fst ?s)")
          case True
          with flush_step_one_writer(2) [OF n le, of answer t]
          have nw: "\<not> writing (fst ?s)" and was: "writing ?c \<or> exited ?c" by simp_all
          from was alive \<open>i < length cs\<close> have w1: "writing ?c"
            by (auto simp: list_ex_iff)
          with le n have "length (filter writing cs) = 1" by (auto split: if_splits)
          with cnt nw w1 have "length (filter writing (cs[i := fst ?s])) = 0" by simp
          with Pair alive Resume \<open>i < length cs\<close> ex True show ?thesis
            by (simp add: one_writer_def split_beta Let_def)
        next
          case False
          with flush_step_one_writer(1) [OF n le, of answer t]
          have "length (filter writing cs) + (if writing (fst ?s) then 1 else 0) =
                (if isStoring (snd ?s) then 1 else 0) + (if writing ?c then 1 else 0)"
            by simp
          with cnt have "length (filter writing (cs[i := fst ?s])) =
                (if isStoring (snd ?s) then 1 else 0)"
            by (simp split: if_splits)
          with Pair alive Resume \<open>i < length cs\<close> ex False show ?thesis
            by (simp add: one_writer_def split_beta Let_def)
        qed
      qed
    next
      case (Push p)
      with Pair alive n show ?thesis
        by (simp add: one_writer_def isStoring_kept)
    qed
  qed
qed

lemma run_events_one_writer:
  "one_writer cfg \<Longrightarrow> one_writer (run_events evs cfg)"
  by (induction evs arbitrary: cfg) (simp_all add: apply_event_one_writer)

lemma run_events_at_most_one_writer:
  assumes "\<not> isStoring w"
  shows "length (filter writing (snd (run_events evs (w, [])))) \<le> 1"
proof -
  have "one_writer (w, [])" using assms by (simp add: one_writer_def)
  then have "one_writer (run_events evs (w, []))" by (rule run_events_one_writer)
  then show ?thesis by (simp add: one_writer_def split: if_splits)
qed

lemma trigger_while_writing:
  assumes "\<not> isStoring w0" and "run_events evs (w0, []) = (w, cs)"
    and "list_ex writing cs" and "\<not> list_ex exited cs"
  shows "apply_event (Trigger force) (w, cs) = (w, cs @ [Finished Returned])"
proof -
  have "one_writer (w0, [])" using assms(1) by (simp add: one_writer_def)
  then have "one_writer (run_events evs (w0, []))" by (rule run_events_one_writer)
  with assms(2,4) have "length (filter writing cs) = (if isStoring w then 1 else 0)"
    by (simp add: one_writer_def)
  moreover from assms(3) have "filter writing cs \<noteq> []"
    by (auto simp: list_ex_iff filter_empty_conv)
  ultimately have "isStoring w" by (auto split: if_splits)
  then have "flush_begin force w = None" by (simp add: flush_begin_None_iff)
  with assms(4) show ?thesis
    by (simp add: flush_step_Called)
qed

lemma flush_step_not_writing_store:
  "\<not> writing c \<Longrightarrow>
     requests (snd (flush_step answer t c w)) = requests w \<and>
     kv_PAGES (snd (flush_step answer t c w)) = kv_PAGES w \<and>
     kv_STATE (snd (flush_step answer t c w)) = kv_STATE w"
  by (cases c) (auto simp: flush_step_Called flush_step_Finished)

section \<open>Facts about the worker, the queue and the crawl\<close>

lemma browse_page_frame:
  "state (snd (snd (browse_page inp env pg w))) = state w"
  "kv_PAGES (snd (snd (browse_page inp env pg w))) = kv_PAGES w"
  "kv_STATE (snd (snd (browse_page inp env pg w))) = kv_STATE w"
  "requests (snd (snd (browse_page inp env pg w))) = requests w"
  "isStoring (snd (snd (browse_page inp env pg w))) = isStoring w"
  "queued (snd (snd (browse_page inp env pg w))) = queued w"
  "dispatched (snd (snd (browse_page inp env pg w))) = dispatched w"
  "storePagesInterval (snd (snd (browse_page inp env pg w))) = storePagesInterval w"
  by (simp_all add: browse_page_def Let_def split: option.splits sum.splits)

lemma load_page_snd:
  "snd (load_page inp env u w) =
     (case browse_result env of
        Some e \<Rightarrow> w
      | None \<Rightarrow> snd (snd (browse_page inp env (new_page inp env u) w)))"
  by (simp add: load_page_def Let_def split: option.splits prod.splits)

lemma load_page_frame:
  "state (snd (load_page inp env u w)) = state w"
  "kv_PAGES (snd (load_page inp env u w)) = kv_PAGES w"
  "kv_STATE (snd (load_page inp env u w)) = kv_STATE w"
  "requests (snd (load_page inp env u w)) = requests w"
  "isStoring (snd (load_page inp env u w)) = isStoring w"
  "queued (snd (load_page inp env u w)) = queued w"
  "dispatched (snd (load_page inp env u w)) = dispatched w"
  "storePagesInterval (snd (load_page inp env u w)) = storePagesInterval w"
  by (simp_all add: load_page_snd browse_page_frame split: option.splits)

lemma workerFunc_eq:
  "workerFunc inp env u w =
     (case (if browse_result env = None then close_result env else None) of
        Some e \<Rightarrow> (Thrown e, snd (load_page inp env u w))
      | None \<Rightarrow> maybeStoreData False (flush_env env) (snd (load_page inp env u w)))"
  by (cases "load_page inp env u w") (auto simp: workerFunc_def split: option.splits)

lemma workerFunc_counters_match:
  "counters_match w \<Longrightarrow> counters_match (snd (workerFunc inp env u w))"
proof -
  assume a: "counters_match w"
  then have "counters_match (snd (load_page inp env u w))"
    by (simp add: counters_match_def load_page_frame)
  then show ?thesis
    by (auto simp: workerFunc_eq maybeStoreData_counters_match split: option.splits)
qed

lemma workerFunc_flag:
  assumes "\<not> isStoring w" and "\<not> is_exit (fst (workerFunc inp env u w))"
  shows "\<not> isStoring (snd (workerFunc inp env u w))"
proof -
  have l: "\<not> isStoring (snd (load_page inp env u w))"
    using assms(1) by (simp add: load_page_frame)
  show ?thesis
  proof (cases "if browse_result env = None then close_result env else None")
    case None
    with assms(2) l show ?thesis
      by (simp add: workerFunc_eq maybeStoreData_flag)
  next
    case (Some e)
    with l show ?thesis by (simp add: workerFunc_eq)
  qed
qed

lemma workerFunc_frame:
  "queued (snd (workerFunc inp env u w)) = queued w"
  "dispatched (snd (workerFunc inp env u w)) = dispatched w"
  "storePagesInterval (snd (workerFunc inp env u w)) = storePagesInterval w"
  by (simp_all add: workerFunc_eq maybeStoreData_frame load_page_frame split: option.splits)

lemma run_queue_Cons:
  "run_queue inp envs i (u # q) w =
     (if is_exit (fst (workerFunc inp (envs i) u (w\<lparr>dispatched := dispatched w @ [u]\<rparr>)))
      then workerFunc inp (envs i) u (w\<lparr>dispatched := dispatched w @ [u]\<rparr>)
      else run_queue inp envs (Suc i) q (snd (workerFunc inp (envs i) u (w\<lparr>dispatched := dispatched w @ [u]\<rparr>))))"
  by (cases "workerFunc inp (envs i) u (w\<lparr>dispatched := dispatched w @ [u]\<rparr>)";
      cases "fst (workerFunc inp (envs i) u (w\<lparr>dispatched := dispatched w @ [u]\<rparr>))") auto

lemma run_queue_outcome:
  "fst (run_queue inp envs i q w) = Returned \<or> is_exit (fst (run_queue inp envs i q w))"
proof (induction q arbitrary: i w)
  case Nil
  show ?case by simp
next
  case (Cons u q)
  show ?case by (simp add: run_queue_Cons Cons.IH del: run_queue.simps)
qed

lemma run_queue_counters_match:
  "counters_match w \<Longrightarrow> counters_match (snd (run_queue inp envs i q w))"
proof (induction q arbitrary: i w)
  case Nil
  then show ?case by simp
next
  case (Cons u q)
  have "counters_match (w\<lparr>dispatched := dispatched w @ [u]\<rparr>)"
    using Cons.prems by (simp add: counters_match_def)
  then have "counters_match (snd (workerFunc inp (envs i) u (w\<lparr>dispatched := dispatched w @ [u]\<rparr>)))"
    by (rule workerFunc_counters_match)
  then show ?case
    by (simp add: run_queue_Cons Cons.IH del: run_queue.simps)
qed

lemma run_queue_flag:
  "\<not> isStoring w \<Longrightarrow> \<not> is_exit (fst (run_queue inp envs i q w)) \<Longrightarrow>
     \<not> isStoring (snd (run_queue inp envs i q w))"
proof (induction q arbitrary: i w)
  case Nil
  then show ?case by simp
next
  case (Cons u q)
  let ?r = "workerFunc inp (envs i) u (w\<lparr>dispatched := dispatched w @ [u]\<rparr>)"
  from Cons.prems(2) have ne: "\<not> is_exit (fst ?r)"
    by (auto simp: run_queue_Cons simp del: run_queue.simps split: if_splits)
  have "\<not> isStoring (w\<lparr>dispatched := dispatched w @ [u]\<rparr>)"
    using Cons.prems(1) by simp
  then have "\<not> isStoring (snd ?r)"
    using ne by (rule workerFunc_flag)
  then show ?case
    using Cons.prems(2) ne by (simp add: run_queue_Cons Cons.IH del: run_queue.simps)
qed

lemma run_queue_queued:
  "queued (snd (run_queue inp envs i q w)) = queued w"
proof (induction q arbitrary: i w)
  case Nil
  show ?case by simp
next
  case (Cons u q)
  show ?case
    by (simp add: run_queue_Cons Cons.IH workerFunc_frame del: run_queue.simps)
qed

lemma run_queue_dispatched:
  "\<not> is_exit (fst (run_queue inp envs i q w)) \<Longrightarrow>
     dispatched (snd (run_queue inp envs i q w)) = dispatched w @ q"
proof (induction q arbitrary: i w)
  case Nil
  show ?case by simp
next
  case (Cons u q)
  let ?r = "workerFunc inp (envs i) u (w\<lparr>dispatched := dispatched w @ [u]\<rparr>)"
  from Cons.prems have ne: "\<not> is_exit (fst ?r)"
    by (auto simp: run_queue_Cons simp del: run_queue.simps split: if_splits)
  with Cons.prems show ?case
    by (simp add: run_queue_Cons Cons.IH workerFunc_frame del: run_queue.simps)
qed

lemma crawl_eq:
  "crawl seeds inp t ss sp envs fe =
     (let w3 = crawl_prepare seeds inp t ss sp;
          r = run_queue inp envs 0 (urls w3) (w3\<lparr>queued := queued w3 @ urls w3\<rparr>)
      in if urls w3 = [] then maybeStoreData True fe w3
         else if is_exit (fst r) then r
         else maybeStoreData True fe (snd r))"
proof -
  let ?w3 = "crawl_prepare seeds inp t ss sp"
  let ?r = "run_queue inp envs 0 (urls ?w3) (?w3\<lparr>queued := queued ?w3 @ urls ?w3\<rparr>)"
  show ?thesis
    by (cases ?r; cases "fst ?r") (auto simp: crawl_def Let_def)
qed

lemma crawl_prepare_fields:
  "state (crawl_prepare seeds inp t ss sp) = (case ss of None \<Rightarrow> DEFAULT_STATE | Some st \<Rightarrow> st)"
  "kv_PAGES (crawl_prepare seeds inp t ss sp) = sp"
  "kv_STATE (crawl_prepare seeds inp t ss sp) = ss"
  "isStoring (crawl_prepare seeds inp t ss sp) = False"
  "queued (crawl_prepare seeds inp t ss sp) = []"
  "dispatched (crawl_prepare seeds inp t ss sp) = []"
  "finishedPages (crawl_prepare seeds inp t ss sp) = []"
  "requests (crawl_prepare seeds inp t ss sp) = []"
  by (simp_all add: crawl_prepare_def module_init_def apply_storePagesInterval_def load_state_def
        skip_crawled_def Let_def split: option.splits)

lemma crawl_prepare_urls:
  "urls (crawl_prepare seeds inp t ss sp) =
     (case ss of None \<Rightarrow> seeds | Some st \<Rightarrow> drop (nat (pageCount st)) seeds)"
  by (simp add: crawl_prepare_def module_init_def apply_storePagesInterval_def load_state_def
        skip_crawled_def DEFAULT_STATE_def Let_def split: option.splits)

lemma crawl_counters_match:
  assumes "counters_match (crawl_prepare seeds inp t ss sp)"
  shows "counters_match (snd (crawl seeds inp t ss sp envs fe))"
proof -
  let ?w3 = "crawl_prepare seeds inp t ss sp"
  have "counters_match (?w3\<lparr>queued := queued ?w3 @ urls ?w3\<rparr>)"
    using assms by (simp add: counters_match_def)
  then have "counters_match (snd (run_queue inp envs 0 (urls ?w3) (?w3\<lparr>queued := queued ?w3 @ urls ?w3\<rparr>)))"
    by (rule run_queue_counters_match)
  with assms show ?thesis
    by (simp add: crawl_eq Let_def maybeStoreData_counters_match)
qed

lemma fresh_crawl_counters_match:
  "counters_match (snd (crawl seeds inp t None [] envs fe))"
  by (rule crawl_counters_match)
     (simp add: counters_match_def crawl_prepare_fields DEFAULT_STATE_def total_records_def)

lemma crawl_final_flush:
  "is_exit (fst (crawl seeds inp t ss sp envs fe)) \<and>
     crawl seeds inp t ss sp envs fe =
       run_queue inp envs 0 (urls (crawl_prepare seeds inp t ss sp))
         ((crawl_prepare seeds inp t ss sp)\<lparr>queued := queued (crawl_prepare seeds inp t ss sp) @
            urls (crawl_prepare seeds inp t ss sp)\<rparr>) \<or>
   (\<exists>w. \<not> isStoring w \<and> crawl seeds inp t ss sp envs fe = maybeStoreData True fe w)"
proof -
  let ?w3 = "crawl_prepare seeds inp t ss sp"
  let ?r = "run_queue inp envs 0 (urls ?w3) (?w3\<lparr>queued := queued ?w3 @ urls ?w3\<rparr>)"
  show ?thesis
  proof (cases "urls ?w3 = []")
    case True
    then have "crawl seeds inp t ss sp envs fe = maybeStoreData True fe ?w3"
      by (simp add: crawl_eq Let_def)
    moreover have "\<not> isStoring ?w3" by (simp add: crawl_prepare_fields)
    ultimately show ?thesis by blast
  next
    case False
    show ?thesis
    proof (cases "is_exit (fst ?r)")
      case True
      with False show ?thesis by (simp add: crawl_eq Let_def)
    next
      case ne: False
      have "\<not> isStoring (?w3\<lparr>queued := queued ?w3 @ urls ?w3\<rparr>)"
        by (simp add: crawl_prepare_fields)
      then have "\<not> isStoring (snd ?r)" using ne by (rule run_queue_flag)
      moreover have "crawl seeds inp t ss sp envs fe = maybeStoreData True fe (snd ?r)"
        using False ne by (simp add: crawl_eq Let_def)
      ultimately show ?thesis by blast
    qed
  qed
qed

lemma crawl_returned_empties:
  assumes "fst (crawl seeds inp t ss sp envs fe) = Returned"
    and "arrived_during_pages_write fe = []" and "arrived_during_state_write fe = []"
  shows "finishedPages (snd (crawl seeds inp t ss sp envs fe)) = []"
  using crawl_final_flush [of seeds inp t ss sp envs fe] assms
  by (auto simp: forced_flush_returned_empties)

lemma load_page_browse_failed:
  assumes "browse_result env = Some e"
  shows "finishedPages (snd (load_page inp env u w)) = finishedPages w"
    and "errorInfo (fst (load_page inp env u w)) = Some (error_info e)"
    and "urls (snd (load_page inp env u w)) = urls w"
  using assms by (simp_all add: load_page_def Let_def)

lemma failed_fetch_not_buffered:
  "browse_result env = Some e \<Longrightarrow>
     errorInfo (fst (load_page inp env u w)) = Some (error_info e) \<and>
     finishedPages (snd (load_page inp env u w)) = finishedPages w \<and>
     finishedPages (snd (workerFunc inp env u w)) =
       finishedPages (after_flush False (flush_env env) w)"
  by (simp add: load_page_def workerFunc_eq Let_def)

lemma crawl_queued:
  "queued (snd (crawl seeds inp t ss sp envs fe)) = urls (crawl_prepare seeds inp t ss sp)"
proof -
  let ?w3 = "crawl_prepare seeds inp t ss sp"
  let ?r = "run_queue inp envs 0 (urls ?w3) (?w3\<lparr>queued := queued ?w3 @ urls ?w3\<rparr>)"
  have "queued (snd ?r) = urls ?w3"
    by (simp add: run_queue_queued crawl_prepare_fields)
  then show ?thesis
    by (simp add: crawl_eq Let_def maybeStoreData_frame crawl_prepare_fields)
qed

lemma crawl_dispatched:
  assumes "\<not> is_exit (fst (crawl seeds inp t ss sp envs fe))"
  shows "dispatched (snd (crawl seeds inp t ss sp envs fe)) = urls (crawl_prepare seeds inp t ss sp)"
proof -
  let ?w3 = "crawl_prepare seeds inp t ss sp"
  let ?r = "run_queue inp envs 0 (urls ?w3) (?w3\<lparr>queued := queued ?w3 @ urls ?w3\<rparr>)"
  show ?thesis
  proof (cases "urls ?w3 = []")
    case True
    then show ?thesis
      by (simp add: crawl_eq Let_def maybeStoreData_frame crawl_prepare_fields)
  next
    case False
    with assms have ne: "\<not> is_exit (fst ?r)"
      by (auto simp: crawl_eq Let_def split: if_splits)
    then have "dispatched (snd ?r) = urls ?w3"
      by (simp add: run_queue_dispatched crawl_prepare_fields)
    with False ne show ?thesis
      by (simp add: crawl_eq Let_def maybeStoreData_frame)
  qed
qed

lemma crawl_nothing_left:
  assumes "urls (crawl_prepare seeds inp t ss sp) = []"
  shows "dispatched (snd (crawl seeds inp t ss sp envs fe)) = []"
  using assms by (simp add: crawl_eq Let_def maybeStoreData_frame crawl_prepare_fields)

lemma crawl_dispatched_within_seeds:
  "set (dispatched (snd (crawl seeds inp t ss sp envs fe))) \<subseteq> set seeds"
proof -
  let ?w3 = "crawl_prepare seeds inp t ss sp"
  have p: "\<And>q i w. set (dispatched (snd (run_queue inp envs i q w))) \<subseteq> set (dispatched w) \<union> set q"
  proof -
    fix q i w
    show "set (dispatched (snd (run_queue inp envs i q w))) \<subseteq> set (dispatched w) \<union> set q"
    proof (induction q arbitrary: i w)
      case Nil
      show ?case by simp
    next
      case (Cons u q)
      let ?r = "workerFunc inp (envs i) u (w\<lparr>dispatched := dispatched w @ [u]\<rparr>)"
      have d: "dispatched (snd ?r) = dispatched w @ [u]"
        by (simp add: workerFunc_frame)
      show ?case
      proof (cases "is_exit (fst ?r)")
        case True
        then show ?thesis using d by (auto simp: run_queue_Cons simp del: run_queue.simps)
      next
        case False
        then show ?thesis
          using Cons.IH [of "Suc i" "snd ?r"] d
          by (auto simp: run_queue_Cons simp del: run_queue.simps)
      qed
    qed
  qed
  have u: "set (urls ?w3) \<subseteq> set seeds"
    by (auto simp: crawl_prepare_urls split: option.splits dest: in_set_dropD)
  have "set (dispatched (snd (run_queue inp envs 0 (urls ?w3) (?w3\<lparr>queued := queued ?w3 @ urls ?w3\<rparr>))))
      \<subseteq> set (urls ?w3)"
    using p [of 0 "urls ?w3" "?w3\<lparr>queued := queued ?w3 @ urls ?w3\<rparr>"]
    by (simp add: crawl_prepare_fields)
  with u show ?thesis
    by (auto simp: crawl_eq Let_def maybeStoreData_frame crawl_prepare_fields)
qed

lemma browse_page_throws:
  "browse_page inp env pg w = (Some (join_TypeError env), pg, w)"
  by (simp add: browse_page_def input_languages_def)

lemma load_page_eq:
  "load_page inp env u w =
     ((new_page inp env u)\<lparr>errorInfo :=
         Some (error_info (case browse_result env of Some e \<Rightarrow> e | None \<Rightarrow> join_TypeError env))\<rparr>,
      w)"
  by (simp add: load_page_def browse_page_throws Let_def split: option.splits)

lemma workerFunc_on_empty_buffer:
  assumes "finishedPages w = []"
  shows "snd (workerFunc inp env u w) = w" and "\<not> is_exit (fst (workerFunc inp env u w))"
  using assms
  by (simp_all add: workerFunc_eq load_page_eq maybeStoreData_skip flush_begin_None_iff
        split: option.splits)


lemma run_queue_on_empty_buffer:
  "finishedPages w = [] \<Longrightarrow>
     run_queue inp envs i q w = (Returned, w\<lparr>dispatched := dispatched w @ q\<rparr>)"
proof (induction q arbitrary: i w)
  case Nil
  then show ?case by simp
next
  case (Cons u q)
  let ?w = "w\<lparr>dispatched := dispatched w @ [u]\<rparr>"
  have e: "finishedPages ?w = []" using Cons.prems by simp
  have 1: "snd (workerFunc inp (envs i) u ?w) = ?w"
    and 2: "\<not> is_exit (fst (workerFunc inp (envs i) u ?w))"
    using workerFunc_on_empty_buffer [OF e] by simp_all
  show ?case
    using Cons.IH [OF e, of "Suc i"] 1 2
    by (simp add: run_queue_Cons del: run_queue.simps)
qed

lemma crawl_stores_nothing:
  "crawl seeds inp t ss sp envs fe =
     (Returned,
      (crawl_prepare seeds inp t ss sp)
        \<lparr>queued := urls (crawl_prepare seeds inp t ss sp),
          dispatched := urls (crawl_prepare seeds inp t ss sp)\<rparr>)"
proof -
  let ?w3 = "crawl_prepare seeds inp t ss sp"
  have e: "finishedPages (?w3\<lparr>queued := queued ?w3 @ urls ?w3\<rparr>) = []"
    by (simp add: crawl_prepare_fields)
  have f: "flush_begin True ?w3 = None"
    "flush_begin True (?w3\<lparr>queued := urls ?w3, dispatched := urls ?w3\<rparr>) = None"
    by (simp_all add: flush_begin_None_iff crawl_prepare_fields)
  have z: "urls ?w3 = [] \<Longrightarrow> ?w3\<lparr>queued := urls ?w3, dispatched := urls ?w3\<rparr> = ?w3"
    using crawl_prepare_fields(5,6) [of seeds inp t ss sp] by simp
  show ?thesis
  proof (cases "urls ?w3 = []")
    case True
    then show ?thesis
      using z f(1) by (simp add: crawl_eq Let_def maybeStoreData_skip)
  next
    case False
    have "finishedPages (?w3\<lparr>queued := urls ?w3\<rparr>) = []"
      by (simp add: crawl_prepare_fields)
    then have rq: "run_queue inp envs 0 (urls ?w3) (?w3\<lparr>queued := urls ?w3\<rparr>) =
        (Returned, ?w3\<lparr>queued := urls ?w3, dispatched := urls ?w3\<rparr>)"
      by (simp add: run_queue_on_empty_buffer crawl_prepare_fields)
    from False show ?thesis
      using f(2)
      by (simp add: crawl_eq Let_def rq maybeStoreData_skip crawl_prepare_fields)
  qed
qed

lemma flush_steps_and_counters:
  "(flush_begin force w = Some (k, ps, w1) \<longrightarrow>
      k = batch_key (state w) \<and> ps = finishedPages w \<and> finishedPages w1 = finishedPages w \<and>
      state w1 = state w \<and> kv_PAGES w1 = kv_PAGES w \<and> kv_STATE w1 = kv_STATE w \<and>
      requests w1 = requests w) \<and>
   finishedPages (flush_pages_stored ps (w\<lparr>finishedPages := ps @ rest\<rparr>)) = rest \<and>
   (flush_begin force w \<noteq> None \<and> pages_write env = None \<longrightarrow>
      kv_PAGES (after_flush force env w) = (batch_key (state w), finishedPages w) # kv_PAGES w \<and>
      finishedPages (after_flush force env w) =
        arrived_during_pages_write env @ arrived_during_state_write env \<and>
      pageCount (state (after_flush force env w)) =
        pageCount (state w) + int (length (finishedPages w)) \<and>
      storeCount (state (after_flush force env w)) = storeCount (state w) + 1 \<and>
      requests (after_flush force env w) = ''STATE'' # batch_key (state w) # requests w \<and>
      (state_write env = None \<longrightarrow>
         kv_STATE (after_flush force env w) = Some (state (after_flush force env w)))) \<and>
   (flush_begin force w \<noteq> None \<and> pages_write env \<noteq> None \<longrightarrow>
      state (after_flush force env w) = state w \<and>
      kv_PAGES (after_flush force env w) = kv_PAGES w \<and>
      kv_STATE (after_flush force env w) = kv_STATE w \<and>
      requests (after_flush force env w) = batch_key (state w) # requests w \<and>
      finishedPages (after_flush force env w) = finishedPages w @ arrived_during_pages_write env) \<and>
   (counters_match w \<longrightarrow> counters_match (after_flush force env w)) \<and>
   pageCount (state w) \<le> pageCount (state (after_flush force env w)) \<and>
   storeCount (state w) \<le> storeCount (state (after_flush force env w)) \<and>
   counters_match (snd (crawl seeds inp t None [] envs final_env))"
proof -
  have 1: "flush_begin force w = Some (k, ps, w1) \<longrightarrow>
      k = batch_key (state w) \<and> ps = finishedPages w \<and> finishedPages w1 = finishedPages w \<and>
      state w1 = state w \<and> kv_PAGES w1 = kv_PAGES w \<and> kv_STATE w1 = kv_STATE w \<and>
      requests w1 = requests w"
    by (auto dest: flush_begin_Some)
  have 2: "flush_begin force w \<noteq> None \<and> pages_write env = None \<longrightarrow>
      kv_PAGES (after_flush force env w) = (batch_key (state w), finishedPages w) # kv_PAGES w \<and>
      finishedPages (after_flush force env w) =
        arrived_during_pages_write env @ arrived_during_state_write env \<and>
      pageCount (state (after_flush force env w)) =
        pageCount (state w) + int (length (finishedPages w)) \<and>
      storeCount (state (after_flush force env w)) = storeCount (state w) + 1 \<and>
      requests (after_flush force env w) = ''STATE'' # batch_key (state w) # requests w \<and>
      (state_write env = None \<longrightarrow>
         kv_STATE (after_flush force env w) = Some (state (after_flush force env w)))"
    by (simp add: maybeStoreData_pages_stored)
  have 3: "flush_begin force w \<noteq> None \<and> pages_write env \<noteq> None \<longrightarrow>
      state (after_flush force env w) = state w \<and>
      kv_PAGES (after_flush force env w) = kv_PAGES w \<and>
      kv_STATE (after_flush force env w) = kv_STATE w \<and>
      requests (after_flush force env w) = batch_key (state w) # requests w \<and>
      finishedPages (after_flush force env w) = finishedPages w @ arrived_during_pages_write env"
    by (auto simp: maybeStoreData_pages_failed)
  have 4: "counters_match w \<longrightarrow> counters_match (after_flush force env w)"
    by (simp add: maybeStoreData_counters_match)
  show ?thesis
    using 1 2 3 4 maybeStoreData_mono [of w force env]
      fresh_crawl_counters_match [of seeds inp t envs final_env]
      flush_pages_stored_prefix [where ps = ps and w = w and rest = rest]
    by blast
qed

lemma fresh_crawl_keys_fresh: "keys_fresh (snd (crawl seeds inp t None [] envs fe))"
  by (simp add: crawl_stores_nothing keys_fresh_def crawl_prepare_fields DEFAULT_STATE_fields)


section \<open>Facts about the example inputs\<close>

lemma two_pages_fields:
  "state two_pages = DEFAULT_STATE"
  "finishedPages two_pages = [example_page ''a'', example_page ''b'']"
  "kv_PAGES two_pages = []"
  "kv_STATE two_pages = None"
  "requests two_pages = []"
  "isStoring two_pages = False"
  "storePagesInterval two_pages = 2"
  by (simp_all add: two_pages_def buffered_def module_init_def)

lemma two_pages_begins: "flush_begin force two_pages \<noteq> None"
  by (simp add: flush_begin_None_iff two_pages_fields)

lemma counters_match_two_pages: "counters_match two_pages"
  by (simp add: counters_match_def two_pages_fields DEFAULT_STATE_def total_records_def)

lemma payload_error_too_large: "is_payload_too_large payload_error"
  by (simp add: is_payload_too_large_def payload_error_def indexOf_def)

lemma network_error_not_too_large: "\<not> is_payload_too_large network_error"
  by (simp add: is_payload_too_large_def network_error_def indexOf_def)

lemmas model_defs =
  main_def crawl_def crawl_prepare_def module_init_def apply_storePagesInterval_def
  load_state_def skip_crawled_def workerFunc_def load_page_def browse_page_def
  input_languages_def getAllLinks_def new_page_def
  getRandomElement_def completeProxyUrl_def maybeStoreData_def flush_begin_def setValue_pages_def
  setValue_state_def others_push_def flush_pages_stored_def flush_finish_def flush_failed_def
  DEFAULT_STATE_def SUBSCENE_START_def Let_def

lemmas example_defs =
  no_input_def subtitle_worker_def env_ok_def env_pages_fail_def env_state_fail_def
  env_pages_too_large_def env_state_too_large_def buffered_def one_page_def two_pages_def
  busy_def

lemma env_ok_fields:
  "pages_write env_ok = None" "state_write env_ok = None"
  "arrived_during_pages_write env_ok = []" "arrived_during_state_write env_ok = []"
  by (simp_all add: env_ok_def)

lemma two_seeds_Cons: "two_seeds = SUBSCENE_START # [''https://subscene.com/subtitles/x'']"
  by (simp add: two_seeds_def)

lemma start_world_fields:
  "finishedPages start_world = []" "kv_PAGES start_world = []" "kv_STATE start_world = None"
  "requests start_world = []" "isStoring start_world = False"
  by (simp_all add: start_world_def crawl_prepare_fields)

lemma overlapping_prefix:
  "run_events [Trigger False] (two_pages, []) =
     (two_pages\<lparr>isStoring := True\<rparr>,
      [At_pages_write False ''PAGES-000000001'' [example_page ''a'', example_page ''b'']])"
  by (simp add: flush_step_Called flush_begin_None_iff two_pages_fields batch_key_first)

lemma overlapping_result:
  "snd (run_events overlapping_schedule (two_pages, [])) =
     [Finished Returned, Finished Returned, Finished Returned] \<and>
   finishedPages (fst (run_events overlapping_schedule (two_pages, []))) = [example_page ''c''] \<and>
   map snd (kv_PAGES (fst (run_events overlapping_schedule (two_pages, [])))) =
     [[example_page ''a'', example_page ''b'']] \<and>
   requests (fst (run_events overlapping_schedule (two_pages, []))) =
     [''STATE'', ''PAGES-000000001'']"
  by (simp add: overlapping_schedule_def flush_step_def flush_begin_def two_pages_def buffered_def
        module_init_def setValue_pages_def setValue_state_def flush_pages_stored_def
        flush_finish_def others_push_def batch_key_initial DEFAULT_STATE_fields Let_def)

lemma second_buffer_fields:
  "state second_buffer = \<lparr>storeCount = 1, pageCount = 2\<rparr>"
  "finishedPages second_buffer = [example_page ''c'', example_page ''d'']"
  "kv_PAGES second_buffer = [(''PAGES-000000001'', [example_page ''a'', example_page ''b''])]"
  "isStoring second_buffer = False"
  "storePagesInterval second_buffer = 2"
  "requests second_buffer = [''STATE'', ''PAGES-000000001'']"
  using two_pages_begins [of False]
  by (simp_all add: second_buffer_def others_push_def maybeStoreData_pages_stored
        maybeStoreData_frame env_ok_fields two_pages_fields batch_key_initial DEFAULT_STATE_def)

lemma second_buffer_begins: "flush_begin force second_buffer \<noteq> None"
  by (simp add: flush_begin_None_iff second_buffer_fields)

lemma second_buffer_invariants: "counters_match second_buffer" "keys_fresh second_buffer"
  by (simp_all add: counters_match_def keys_fresh_def second_buffer_fields total_records_def
        key_number_def read_nat_def digit_value_def)

lemma keys_fresh_two_pages: "keys_fresh two_pages"
  by (simp add: keys_fresh_def two_pages_fields DEFAULT_STATE_fields)


lemma too_large_worker_fields:
  "browse_result too_large_worker = None" "close_result too_large_worker = None"
  "flush_env too_large_worker = env_pages_too_large"
  by (simp_all add: too_large_worker_def subtitle_worker_def)

section \<open>Discovered links\<close>



section \<open>What one call of the worker appends\<close>

text \<open>
  Claim C2 at two concrete calls of the worker on the start page, with nothing buffered
  and an empty store. In the first the browser opens; the \<open>try\<close> block is left at line 160
  with the \<open>TypeError\<close> of \<open>undefined.join\<close>. In the second \<open>Apify.browse\<close> fails. In both the
  \<open>catch\<close> block writes the error detail into the page object (line 221), the page object is
  pushed nowhere, and the worker returns after a \<open>maybeStoreData()\<close> that finds the buffer
  empty: no page record is appended and nothing is sent to the store.
\<close>

theorem failed_fetch_appends_no_record:
  "errorInfo (fst (load_page no_input (subtitle_worker [] env_ok) SUBSCENE_START start_world)) =
     Some (Detail ''TypeError: Cannot read property join of undefined'') \<and>
   workerFunc no_input (subtitle_worker [] env_ok) SUBSCENE_START start_world =
     (Returned, start_world) \<and>
   errorInfo (fst (load_page no_input (failing_worker env_ok) SUBSCENE_START start_world)) =
     Some (Detail ''socket hang up'') \<and>
   workerFunc no_input (failing_worker env_ok) SUBSCENE_START start_world =
     (Returned, start_world) \<and>
   finishedPages start_world = [] \<and> kv_PAGES start_world = [] \<and> requests start_world = []"
proof -
  have f: "flush_begin False start_world = None"
    by (simp add: flush_begin_None_iff start_world_fields)
  have c: "browse_result (subtitle_worker [] env_ok) = None"
    "close_result (subtitle_worker [] env_ok) = None"
    "browse_result (failing_worker env_ok) = Some network_error"
    "join_TypeError (subtitle_worker [] env_ok) =
       \<lparr>message = Some ''Cannot read property join of undefined'',
        stack = Some ''TypeError: Cannot read property join of undefined''\<rparr>"
    by (simp_all add: subtitle_worker_def failing_worker_def)
  show ?thesis
    by (simp add: workerFunc_eq load_page_eq c f maybeStoreData_skip start_world_fields
          error_info_def network_error_def)
qed

section \<open>The steps of a flush and the counters\<close>

text \<open>
  Claim C3. A call of \<open>maybeStoreData\<close> that passes its guards takes the whole buffer as the
  batch, without changing the buffer, the counters or the store, and derives the key from
  \<open>storeCount\<close>: the key is \<open>PAGES-\<close> followed by the decimal digits of \<open>storeCount + 1\<close>, filled
  with zeros on the left to nine characters. When the write of the batch succeeds, the
  batch is in the store under that key, exactly the stored prefix has left the buffer (what
  arrived during the two writes remains), \<open>pageCount\<close> has grown by the size of the batch and
  \<open>storeCount\<close> by one, and \<open>STATE\<close> was requested after the batch, with the new counters. When
  the write of the batch fails, the buffer keeps the batch, the counters and the store stay
  as they were, and \<open>STATE\<close> is not requested. Hence every call keeps \<open>pageCount\<close> equal to
  the number of records in the batches written and \<open>storeCount\<close> equal to the number of
  batches, if they were so before, and never lowers a counter. As long as the keys in the
  store carry numbers up to \<open>storeCount\<close>, the next key is a new one, so no batch is written
  over another and every batch written can be read back under its key. A crawl that starts
  on an empty store ends with all of this.
\<close>

theorem flush_step_order_and_counters:
  "(flush_begin force w = Some (k, ps, w1) \<longrightarrow>
      k = batch_key (state w) \<and> ps = finishedPages w \<and> finishedPages w1 = finishedPages w \<and>
      state w1 = state w \<and> kv_PAGES w1 = kv_PAGES w \<and> kv_STATE w1 = kv_STATE w \<and>
      requests w1 = requests w) \<and>
   finishedPages (flush_pages_stored ps (w\<lparr>finishedPages := ps @ rest\<rparr>)) = rest \<and>
   (flush_begin force w \<noteq> None \<and> pages_write env = None \<longrightarrow>
      kv_PAGES (after_flush force env w) = (batch_key (state w), finishedPages w) # kv_PAGES w \<and>
      finishedPages (after_flush force env w) =
        arrived_during_pages_write env @ arrived_during_state_write env \<and>
      pageCount (state (after_flush force env w)) =
        pageCount (state w) + int (length (finishedPages w)) \<and>
      storeCount (state (after_flush force env w)) = storeCount (state w) + 1 \<and>
      requests (after_flush force env w) = ''STATE'' # batch_key (state w) # requests w \<and>
      (state_write env = None \<longrightarrow>
         kv_STATE (after_flush force env w) = Some (state (after_flush force env w)))) \<and>
   (flush_begin force w \<noteq> None \<and> pages_write env \<noteq> None \<longrightarrow>
      state (after_flush force env w) = state w \<and>
      kv_PAGES (after_flush force env w) = kv_PAGES w \<and>
      kv_STATE (after_flush force env w) = kv_STATE w \<and>
      requests (after_flush force env w) = batch_key (state w) # requests w \<and>
      finishedPages (after_flush force env w) = finishedPages w @ arrived_during_pages_write env) \<and>
   (counters_match w \<longrightarrow> counters_match (after_flush force env w)) \<and>
   pageCount (state w) \<le> pageCount (state (after_flush force env w)) \<and>
   storeCount (state w) \<le> storeCount (state (after_flush force env w)) \<and>
   counters_match (snd (crawl seeds inp t None [] envs final_env)) \<and>
   (0 \<le> storeCount st \<longrightarrow> key_number (batch_key st) = storeCount st + 1) \<and>
   take 6 (batch_key st) = ''PAGES-'' \<and>
   (0 \<le> storeCount st \<and> storeCount st + 1 < 1000000000 \<longrightarrow> length (batch_key st) = 15) \<and>
   (keys_fresh w \<longrightarrow>
      keys_fresh (after_flush force env w) \<and> batch_key (state w) \<notin> fst ` set (kv_PAGES w)) \<and>
   (keys_fresh w \<and> (k', ps') \<in> set (kv_PAGES w) \<longrightarrow> map_of (kv_PAGES w) k' = Some ps') \<and>
   keys_fresh (snd (crawl seeds inp t None [] envs final_env))"
  using flush_steps_and_counters [of force w k ps w1 rest env seeds inp t envs final_env]
    key_number_batch_key [of st] batch_key_prefix [of st] batch_key_length [of st]
    maybeStoreData_keys_fresh [of w force env] new_key_unused [of w]
    stored_batch_found [of w k' ps'] fresh_crawl_keys_fresh [of seeds inp t envs final_env]
  by blast

theorem flush_step_order_and_counters_witness:
  "flush_begin False two_pages =
     Some (''PAGES-000000001'', [example_page ''a'', example_page ''b''],
           two_pages\<lparr>isStoring := True\<rparr>) \<and>
   pages_write env_ok = None \<and> state_write env_ok = None \<and>
   pages_write env_pages_fail \<noteq> None \<and> counters_match two_pages \<and> keys_fresh two_pages \<and>
   kv_PAGES (after_flush False env_ok two_pages) =
     [(''PAGES-000000001'', [example_page ''a'', example_page ''b''])] \<and>
   finishedPages (after_flush False env_ok two_pages) = [] \<and>
   pageCount (state (after_flush False env_ok two_pages)) = 2 \<and>
   storeCount (state (after_flush False env_ok two_pages)) = 1 \<and>
   requests (after_flush False env_ok two_pages) = [''STATE'', ''PAGES-000000001''] \<and>
   kv_STATE (after_flush False env_ok two_pages) = Some (state (after_flush False env_ok two_pages)) \<and>
   counters_match (after_flush False env_ok two_pages) \<and>
   keys_fresh (after_flush False env_ok two_pages) \<and>
   state (after_flush False env_pages_fail two_pages) = DEFAULT_STATE \<and>
   kv_PAGES (after_flush False env_pages_fail two_pages) = [] \<and>
   requests (after_flush False env_pages_fail two_pages) = [''PAGES-000000001''] \<and>
   finishedPages (after_flush False env_pages_fail two_pages) =
     [example_page ''a'', example_page ''b''] \<and>
   0 \<le> storeCount (state second_buffer) \<and> storeCount (state second_buffer) + 1 < 1000000000 \<and>
   batch_key (state second_buffer) = ''PAGES-000000002'' \<and>
   key_number (batch_key (state second_buffer)) = 2 \<and>
   length (batch_key (state second_buffer)) = 15 \<and>
   flush_begin False second_buffer \<noteq> None \<and>
   counters_match second_buffer \<and> keys_fresh second_buffer \<and>
   ''PAGES-000000002'' \<notin> fst ` set (kv_PAGES second_buffer) \<and>
   kv_PAGES (after_flush False env_ok second_buffer) =
     [(''PAGES-000000002'', [example_page ''c'', example_page ''d'']),
      (''PAGES-000000001'', [example_page ''a'', example_page ''b''])] \<and>
   pageCount (state (after_flush False env_ok second_buffer)) = 4 \<and>
   storeCount (state (after_flush False env_ok second_buffer)) = 2 \<and>
   counters_match (after_flush False env_ok second_buffer) \<and>
   keys_fresh (after_flush False env_ok second_buffer) \<and>
   (''PAGES-000000001'', [example_page ''a'', example_page ''b'']) \<in>
     set (kv_PAGES (after_flush False env_ok second_buffer)) \<and>
   map_of (kv_PAGES (after_flush False env_ok second_buffer)) ''PAGES-000000001'' =
     Some [example_page ''a'', example_page ''b'']"
proof -
  have b: "flush_begin False two_pages =
     Some (''PAGES-000000001'', [example_page ''a'', example_page ''b''],
           two_pages\<lparr>isStoring := True\<rparr>)"
    by (simp add: flush_begin_def two_pages_fields batch_key_first Let_def)
  have e: "pages_write env_ok = None" "state_write env_ok = None"
    "arrived_during_pages_write env_ok = []" "arrived_during_state_write env_ok = []"
    "pages_write env_pages_fail \<noteq> None" "arrived_during_pages_write env_pages_fail = []"
    by (simp_all add: env_ok_def env_pages_fail_def)
  have k2: "batch_key (state second_buffer) = ''PAGES-000000002''"
    by (simp add: batch_key_second second_buffer_fields)
  have sc: "0 \<le> storeCount (state second_buffer)"
    "storeCount (state second_buffer) + 1 < 1000000000"
    by (simp_all add: second_buffer_fields)
  note ok = flush_step_order_and_counters [where force = False and w = two_pages and env = env_ok
        and k = "''PAGES-000000001''" and ps = "[example_page ''a'', example_page ''b'']"
        and ?w1.0 = "two_pages\<lparr>isStoring := True\<rparr>" and rest = "[]" and seeds = "[]"
        and inp = no_input and t = 0 and envs = "\<lambda>i. subtitle_worker [] env_ok"
        and final_env = env_ok and st = "state second_buffer"
        and k' = "''PAGES-000000001''" and ps' = "[]"]
  note bad = flush_step_order_and_counters [where force = False and w = two_pages
        and env = env_pages_fail
        and k = "''PAGES-000000001''" and ps = "[example_page ''a'', example_page ''b'']"
        and ?w1.0 = "two_pages\<lparr>isStoring := True\<rparr>" and rest = "[]" and seeds = "[]"
        and inp = no_input and t = 0 and envs = "\<lambda>i. subtitle_worker [] env_ok"
        and final_env = env_ok and st = "state second_buffer"
        and k' = "''PAGES-000000001''" and ps' = "[]"]
  note second = flush_step_order_and_counters [where force = False and w = second_buffer
        and env = env_ok
        and k = "''PAGES-000000002''" and ps = "[example_page ''c'', example_page ''d'']"
        and ?w1.0 = "second_buffer\<lparr>isStoring := True\<rparr>" and rest = "[]" and seeds = "[]"
        and inp = no_input and t = 0 and envs = "\<lambda>i. subtitle_worker [] env_ok"
        and final_env = env_ok and st = "state second_buffer"
        and k' = "''PAGES-000000001''" and ps' = "[]"]
  note lookup = flush_step_order_and_counters [where force = False
        and w = "after_flush False env_ok second_buffer" and env = env_ok
        and k = "''PAGES-000000002''" and ps = "[example_page ''c'', example_page ''d'']"
        and ?w1.0 = "second_buffer\<lparr>isStoring := True\<rparr>" and rest = "[]" and seeds = "[]"
        and inp = no_input and t = 0 and envs = "\<lambda>i. subtitle_worker [] env_ok"
        and final_env = env_ok and st = "state second_buffer"
        and k' = "''PAGES-000000001''" and ps' = "[example_page ''a'', example_page ''b'']"]
  have 1: "kv_PAGES (after_flush False env_ok two_pages) =
             [(''PAGES-000000001'', [example_page ''a'', example_page ''b''])] \<and>
           finishedPages (after_flush False env_ok two_pages) = [] \<and>
           pageCount (state (after_flush False env_ok two_pages)) = 2 \<and>
           storeCount (state (after_flush False env_ok two_pages)) = 1 \<and>
           requests (after_flush False env_ok two_pages) = [''STATE'', ''PAGES-000000001''] \<and>
           kv_STATE (after_flush False env_ok two_pages) =
             Some (state (after_flush False env_ok two_pages)) \<and>
           counters_match (after_flush False env_ok two_pages) \<and>
           keys_fresh (after_flush False env_ok two_pages)"
    using ok e two_pages_begins [of False] counters_match_two_pages keys_fresh_two_pages
    by (simp add: two_pages_fields batch_key_first DEFAULT_STATE_fields)
  have 2: "state (after_flush False env_pages_fail two_pages) = DEFAULT_STATE \<and>
           kv_PAGES (after_flush False env_pages_fail two_pages) = [] \<and>
           requests (after_flush False env_pages_fail two_pages) = [''PAGES-000000001''] \<and>
           finishedPages (after_flush False env_pages_fail two_pages) =
             [example_page ''a'', example_page ''b'']"
    using bad e two_pages_begins [of False]
    by (simp add: two_pages_fields batch_key_first)
  have 3: "key_number (batch_key (state second_buffer)) = 2 \<and>
           length (batch_key (state second_buffer)) = 15"
    using ok sc by (simp add: second_buffer_fields batch_key_second)
  have 4: "''PAGES-000000002'' \<notin> fst ` set (kv_PAGES second_buffer) \<and>
           kv_PAGES (after_flush False env_ok second_buffer) =
             [(''PAGES-000000002'', [example_page ''c'', example_page ''d'']),
              (''PAGES-000000001'', [example_page ''a'', example_page ''b''])] \<and>
           pageCount (state (after_flush False env_ok second_buffer)) = 4 \<and>
           storeCount (state (after_flush False env_ok second_buffer)) = 2 \<and>
           counters_match (after_flush False env_ok second_buffer) \<and>
           keys_fresh (after_flush False env_ok second_buffer)"
    using second e second_buffer_begins [of False] second_buffer_invariants
    by (simp add: batch_key_second second_buffer_fields)
  have 5: "(''PAGES-000000001'', [example_page ''a'', example_page ''b'']) \<in>
             set (kv_PAGES (after_flush False env_ok second_buffer))"
    using 4 by simp
  have 6: "map_of (kv_PAGES (after_flush False env_ok second_buffer)) ''PAGES-000000001'' =
             Some [example_page ''a'', example_page ''b'']"
    using lookup 4 5 by blast
  show ?thesis
    using 1 2 3 4 5 6 b e k2 sc second_buffer_begins [of False] second_buffer_invariants
      counters_match_two_pages keys_fresh_two_pages
    by simp
qed

section \<open>The forced flush\<close>




section \<open>The non-forced flush policy\<close>

text \<open>
  Claim C5. A call \<open>maybeStoreData()\<close> that is not forced issues a storage request if and
  only if the buffer is not empty, holds at least \<open>storePagesInterval\<close> pages, and no flush
  is in progress. Below the threshold the call changes nothing. While \<open>isStoring\<close> is set,
  any call, forced or not, returns at once and changes nothing, so it is neither queued nor
  replayed. Run on its own, step by step, a call ends as \<open>maybeStoreData\<close> says. When any
  number of calls, resumptions and pushes are interleaved in any order, starting with no
  flush in progress, at most one call is suspended at a storage write at any moment; only
  such a call touches the store; and a call made while another one is suspended at a write
  finishes at once and leaves the globals as they are.
\<close>

theorem nonforced_flush_policy:
  "(requests (snd (maybeStoreData False env w)) \<noteq> requests w \<longleftrightarrow>
      finishedPages w \<noteq> [] \<and> storePagesInterval w \<le> int (length (finishedPages w)) \<and>
      \<not> isStoring w) \<and>
   (int (length (finishedPages w)) < storePagesInterval w \<longrightarrow>
      maybeStoreData False env w = (Returned, w)) \<and>
   (isStoring w \<longrightarrow> maybeStoreData force env w = (Returned, w)) \<and>
   steps_alone force env w =
     (Finished (fst (maybeStoreData force env w)), snd (maybeStoreData force env w)) \<and>
   (\<not> isStoring w \<longrightarrow>
      length (filter writing (snd (run_events evs (w, [])))) \<le> 1 \<and>
      one_writer (run_events evs (w, []))) \<and>
   (\<not> writing c \<longrightarrow>
      requests (snd (flush_step answer t c w)) = requests w \<and>
      kv_PAGES (snd (flush_step answer t c w)) = kv_PAGES w \<and>
      kv_STATE (snd (flush_step answer t c w)) = kv_STATE w) \<and>
   (\<not> isStoring w \<and> run_events evs (w, []) = (w', cs) \<and> list_ex writing cs \<and>
    \<not> list_ex exited cs \<longrightarrow>
      apply_event (Trigger force) (w', cs) = (w', cs @ [Finished Returned]))"
proof -
  have 1: "requests (snd (maybeStoreData False env w)) \<noteq> requests w \<longleftrightarrow>
      finishedPages w \<noteq> [] \<and> storePagesInterval w \<le> int (length (finishedPages w)) \<and>
      \<not> isStoring w"
    by (auto simp: maybeStoreData_requests flush_begin_None_iff)
  have 2: "int (length (finishedPages w)) < storePagesInterval w \<longrightarrow>
      maybeStoreData False env w = (Returned, w)"
    by (simp add: maybeStoreData_skip flush_begin_None_iff)
  have 3: "isStoring w \<longrightarrow> maybeStoreData force env w = (Returned, w)"
    by (simp add: maybeStoreData_skip flush_begin_None_iff)
  have 5: "\<not> isStoring w \<longrightarrow>
      length (filter writing (snd (run_events evs (w, [])))) \<le> 1 \<and>
      one_writer (run_events evs (w, []))"
  proof
    assume a: "\<not> isStoring w"
    then have "one_writer (w, [])" by (simp add: one_writer_def)
    then have "one_writer (run_events evs (w, []))" by (rule run_events_one_writer)
    with run_events_at_most_one_writer [OF a, of evs]
    show "length (filter writing (snd (run_events evs (w, [])))) \<le> 1 \<and>
      one_writer (run_events evs (w, []))" by simp
  qed
  have 7: "\<not> isStoring w \<and> run_events evs (w, []) = (w', cs) \<and> list_ex writing cs \<and>
    \<not> list_ex exited cs \<longrightarrow>
      apply_event (Trigger force) (w', cs) = (w', cs @ [Finished Returned])"
    using trigger_while_writing [of w evs w' cs force] by blast
  show ?thesis
    using 1 2 3 5 7 steps_alone_eq [of force env w]
      flush_step_not_writing_store [of c answer t w]
    by blast
qed

theorem nonforced_flush_policy_witness:
  "requests (snd (maybeStoreData False env_ok two_pages)) \<noteq> requests two_pages \<and>
   int (length (finishedPages one_page)) < storePagesInterval one_page \<and>
   maybeStoreData False env_ok one_page = (Returned, one_page) \<and>
   isStoring busy \<and> maybeStoreData True env_ok busy = (Returned, busy) \<and>
   \<not> isStoring two_pages \<and>
   run_events [Trigger False] (two_pages, []) =
     (two_pages\<lparr>isStoring := True\<rparr>,
      [At_pages_write False ''PAGES-000000001'' [example_page ''a'', example_page ''b'']]) \<and>
   apply_event (Trigger True)
     (two_pages\<lparr>isStoring := True\<rparr>,
      [At_pages_write False ''PAGES-000000001'' [example_page ''a'', example_page ''b'']]) =
     (two_pages\<lparr>isStoring := True\<rparr>,
      [At_pages_write False ''PAGES-000000001'' [example_page ''a'', example_page ''b''],
       Finished Returned]) \<and>
   length (filter writing (snd (run_events overlapping_schedule (two_pages, [])))) \<le> 1 \<and>
   snd (run_events overlapping_schedule (two_pages, [])) =
     [Finished Returned, Finished Returned, Finished Returned] \<and>
   requests (fst (run_events overlapping_schedule (two_pages, []))) =
     [''STATE'', ''PAGES-000000001''] \<and>
   \<not> writing (Called True) \<and>
   requests (snd (flush_step None 0 (Called True) busy)) = requests busy"
proof -
  have o: "int (length (finishedPages one_page)) < storePagesInterval one_page"
    by (simp add: one_page_def buffered_def module_init_def)
  have b: "isStoring busy" by (simp add: busy_def)
  have t: "\<not> isStoring two_pages" by (simp add: two_pages_fields)
  have 1: "requests (snd (maybeStoreData False env_ok two_pages)) \<noteq> requests two_pages"
    using nonforced_flush_policy [where env = env_ok and w = two_pages]
    by (simp add: two_pages_fields)
  have 2: "maybeStoreData False env_ok one_page = (Returned, one_page)"
    using nonforced_flush_policy [where env = env_ok and w = one_page] o by blast
  have 3: "maybeStoreData True env_ok busy = (Returned, busy)"
    using nonforced_flush_policy [where env = env_ok and w = busy and force = True] b by blast
  have 4: "length (filter writing (snd (run_events overlapping_schedule (two_pages, [])))) \<le> 1"
    using nonforced_flush_policy [where w = two_pages and evs = overlapping_schedule] t by blast
  have 5: "apply_event (Trigger True)
     (two_pages\<lparr>isStoring := True\<rparr>,
      [At_pages_write False ''PAGES-000000001'' [example_page ''a'', example_page ''b'']]) =
     (two_pages\<lparr>isStoring := True\<rparr>,
      [At_pages_write False ''PAGES-000000001'' [example_page ''a'', example_page ''b'']] @
       [Finished Returned])"
    using nonforced_flush_policy [where w = two_pages and evs = "[Trigger False]"
        and w' = "two_pages\<lparr>isStoring := True\<rparr>" and force = True
        and cs = "[At_pages_write False ''PAGES-000000001'' [example_page ''a'', example_page ''b'']]"]
      t overlapping_prefix
    by simp
  have 6: "requests (snd (flush_step None 0 (Called True) busy)) = requests busy"
    using nonforced_flush_policy [where c = "Called True" and answer = None and t = 0
        and w = busy]
    by simp
  show ?thesis
    using 1 2 3 4 5 6 o b t overlapping_prefix overlapping_result by simp
qed

section \<open>The store's size-limit error\<close>

text \<open>
  Claim C6. When a flush that passed its guards gets, from either of its two writes, an
  error whose message contains \<open>The POST payload is too large\<close>, the call ends in
  \<open>process.exit(1)\<close>, and no request follows the failed one. That exit is the outcome of the
  worker that made the call, of the queue, which starts no further worker, and of the whole
  program, which does not reach its final forced flush.
\<close>

theorem capacity_error_exits:
  "(flush_begin force w \<noteq> None \<and> pages_write env = Some e \<and> is_payload_too_large e \<longrightarrow>
      maybeStoreData force env w =
        (Exited 1, (others_push (arrived_during_pages_write env)
           (w\<lparr>isStoring := True, requests := batch_key (state w) # requests w\<rparr>)))) \<and>
   (flush_begin force w \<noteq> None \<and> pages_write env = None \<and> state_write env = Some e \<and>
    is_payload_too_large e \<longrightarrow>
      fst (maybeStoreData force env w) = Exited 1 \<and>
      requests (after_flush force env w) = ''STATE'' # batch_key (state w) # requests w) \<and>
   ((if browse_result wenv = None then close_result wenv else None) = None \<and>
    is_exit (fst (maybeStoreData False (flush_env wenv) (snd (load_page inp wenv u w)))) \<longrightarrow>
      workerFunc inp wenv u w = maybeStoreData False (flush_env wenv) (snd (load_page inp wenv u w))) \<and>
   (is_exit (fst (workerFunc inp (envs i) u (w\<lparr>dispatched := dispatched w @ [u]\<rparr>))) \<longrightarrow>
      run_queue inp envs i (u # q) w =
        workerFunc inp (envs i) u (w\<lparr>dispatched := dispatched w @ [u]\<rparr>)) \<and>
   (urls (crawl_prepare seeds inp t ss sp) \<noteq> [] \<and>
    is_exit (fst (run_queue inp envs 0 (urls (crawl_prepare seeds inp t ss sp))
      ((crawl_prepare seeds inp t ss sp)\<lparr>queued := queued (crawl_prepare seeds inp t ss sp) @
         urls (crawl_prepare seeds inp t ss sp)\<rparr>))) \<longrightarrow>
      crawl seeds inp t ss sp envs final_env =
        run_queue inp envs 0 (urls (crawl_prepare seeds inp t ss sp))
          ((crawl_prepare seeds inp t ss sp)\<lparr>queued := queued (crawl_prepare seeds inp t ss sp) @
             urls (crawl_prepare seeds inp t ss sp)\<rparr>))"
proof -
  have 1: "flush_begin force w \<noteq> None \<and> pages_write env = Some e \<and> is_payload_too_large e \<longrightarrow>
      maybeStoreData force env w =
        (Exited 1, (others_push (arrived_during_pages_write env)
           (w\<lparr>isStoring := True, requests := batch_key (state w) # requests w\<rparr>)))"
    by (cases force w rule: flush_begin_cases)
       (simp_all add: maybeStoreData_def setValue_pages_def flush_failed_def)
  have 2: "flush_begin force w \<noteq> None \<and> pages_write env = None \<and> state_write env = Some e \<and>
    is_payload_too_large e \<longrightarrow>
      fst (maybeStoreData force env w) = Exited 1 \<and>
      requests (after_flush force env w) = ''STATE'' # batch_key (state w) # requests w"
    by (simp add: maybeStoreData_pages_stored(1,6))
  have 3: "(if browse_result wenv = None then close_result wenv else None) = None \<and>
    is_exit (fst (maybeStoreData False (flush_env wenv) (snd (load_page inp wenv u w)))) \<longrightarrow>
      workerFunc inp wenv u w = maybeStoreData False (flush_env wenv) (snd (load_page inp wenv u w))"
    by (simp add: workerFunc_eq)
  have 4: "is_exit (fst (workerFunc inp (envs i) u (w\<lparr>dispatched := dispatched w @ [u]\<rparr>))) \<longrightarrow>
      run_queue inp envs i (u # q) w =
        workerFunc inp (envs i) u (w\<lparr>dispatched := dispatched w @ [u]\<rparr>)"
    by (simp add: run_queue_Cons del: run_queue.simps)
  have 5: "urls (crawl_prepare seeds inp t ss sp) \<noteq> [] \<and>
    is_exit (fst (run_queue inp envs 0 (urls (crawl_prepare seeds inp t ss sp))
      ((crawl_prepare seeds inp t ss sp)\<lparr>queued := queued (crawl_prepare seeds inp t ss sp) @
         urls (crawl_prepare seeds inp t ss sp)\<rparr>))) \<longrightarrow>
      crawl seeds inp t ss sp envs final_env =
        run_queue inp envs 0 (urls (crawl_prepare seeds inp t ss sp))
          ((crawl_prepare seeds inp t ss sp)\<lparr>queued := queued (crawl_prepare seeds inp t ss sp) @
             urls (crawl_prepare seeds inp t ss sp)\<rparr>)"
    by (simp add: crawl_eq Let_def)
  show ?thesis using 1 2 3 4 5 by blast
qed

theorem capacity_error_exits_witness:
  "is_payload_too_large payload_error \<and>
   flush_begin False two_pages \<noteq> None \<and>
   pages_write env_pages_too_large = Some payload_error \<and>
   fst (maybeStoreData False env_pages_too_large two_pages) = Exited 1 \<and>
   requests (after_flush False env_pages_too_large two_pages) = [''PAGES-000000001''] \<and>
   pages_write env_state_too_large = None \<and>
   state_write env_state_too_large = Some payload_error \<and>
   fst (maybeStoreData False env_state_too_large two_pages) = Exited 1 \<and>
   requests (after_flush False env_state_too_large two_pages) = [''STATE'', ''PAGES-000000001''] \<and>
   (if browse_result too_large_worker = None then close_result too_large_worker else None) = None \<and>
   fst (workerFunc no_input too_large_worker SUBSCENE_START two_pages) = Exited 1 \<and>
   requests (snd (workerFunc no_input too_large_worker SUBSCENE_START two_pages)) =
     [''PAGES-000000001''] \<and>
   fst (run_queue no_input (\<lambda>i. too_large_worker) 0 two_seeds two_pages) = Exited 1 \<and>
   dispatched (snd (run_queue no_input (\<lambda>i. too_large_worker) 0 two_seeds two_pages)) =
     [SUBSCENE_START] \<and>
   requests (snd (run_queue no_input (\<lambda>i. too_large_worker) 0 two_seeds two_pages)) =
     [''PAGES-000000001'']"
proof -
  let ?d = "two_pages\<lparr>dispatched := dispatched two_pages @ [SUBSCENE_START]\<rparr>"
  have e: "pages_write env_pages_too_large = Some payload_error"
    "pages_write env_state_too_large = None"
    "state_write env_state_too_large = Some payload_error"
    by (simp_all add: env_pages_too_large_def env_state_too_large_def env_ok_def)
  have c: "(if browse_result too_large_worker = None then close_result too_large_worker else None) = None"
    by (simp add: too_large_worker_fields)
  have l: "snd (load_page no_input too_large_worker SUBSCENE_START two_pages) = two_pages"
    "snd (load_page no_input too_large_worker SUBSCENE_START ?d) = ?d"
    by (simp_all add: load_page_eq)
  have d: "flush_begin False ?d \<noteq> None" "requests ?d = []" "state ?d = DEFAULT_STATE"
    "dispatched two_pages = []"
    by (simp_all add: flush_begin_None_iff two_pages_fields two_pages_def buffered_def
          module_init_def)
  note flush = capacity_error_exits [where force = False and w = two_pages
      and env = env_pages_too_large and e = payload_error
      and wenv = too_large_worker and inp = no_input and u = SUBSCENE_START
      and envs = "\<lambda>i. too_large_worker" and i = 0 and q = "[''https://subscene.com/subtitles/x'']"
      and seeds = two_seeds and t = 0 and ss = None and sp = "[]" and final_env = env_ok]
  note state_flush = capacity_error_exits [where force = False and w = two_pages
      and env = env_state_too_large and e = payload_error
      and wenv = too_large_worker and inp = no_input and u = SUBSCENE_START
      and envs = "\<lambda>i. too_large_worker" and i = 0 and q = "[''https://subscene.com/subtitles/x'']"
      and seeds = two_seeds and t = 0 and ss = None and sp = "[]" and final_env = env_ok]
  note queue = capacity_error_exits [where force = False and w = ?d
      and env = env_pages_too_large and e = payload_error
      and wenv = too_large_worker and inp = no_input and u = SUBSCENE_START
      and envs = "\<lambda>i. too_large_worker" and i = 0 and q = "[''https://subscene.com/subtitles/x'']"
      and seeds = two_seeds and t = 0 and ss = None and sp = "[]" and final_env = env_ok]
  have 1: "fst (maybeStoreData False env_pages_too_large two_pages) = Exited 1 \<and>
           requests (after_flush False env_pages_too_large two_pages) = [''PAGES-000000001'']"
    using flush e two_pages_begins [of False] payload_error_too_large
    by (simp add: others_push_def two_pages_fields batch_key_first)
  have 2: "fst (maybeStoreData False env_state_too_large two_pages) = Exited 1 \<and>
           requests (after_flush False env_state_too_large two_pages) = [''STATE'', ''PAGES-000000001'']"
    using state_flush e two_pages_begins [of False] payload_error_too_large
    by (simp add: two_pages_fields batch_key_first)
  have p3: "(if browse_result too_large_worker = None then close_result too_large_worker else None) = None \<and>
      is_exit (fst (maybeStoreData False (flush_env too_large_worker)
        (snd (load_page no_input too_large_worker SUBSCENE_START two_pages)))) \<longrightarrow>
      workerFunc no_input too_large_worker SUBSCENE_START two_pages =
        maybeStoreData False (flush_env too_large_worker)
          (snd (load_page no_input too_large_worker SUBSCENE_START two_pages))"
    using flush by blast
  have 3: "workerFunc no_input too_large_worker SUBSCENE_START two_pages =
           maybeStoreData False env_pages_too_large two_pages"
    using p3 c 1 by (simp only: l too_large_worker_fields) simp
  have q1: "flush_begin False ?d \<noteq> None \<and> pages_write env_pages_too_large = Some payload_error \<and>
      is_payload_too_large payload_error \<longrightarrow>
      maybeStoreData False env_pages_too_large ?d =
        (Exited 1, (others_push (arrived_during_pages_write env_pages_too_large)
           (?d\<lparr>isStoring := True, requests := batch_key (state ?d) # requests ?d\<rparr>)))"
    using queue by blast
  have f0: "maybeStoreData False env_pages_too_large ?d =
        (Exited 1, (others_push (arrived_during_pages_write env_pages_too_large)
           (?d\<lparr>isStoring := True, requests := batch_key (state ?d) # requests ?d\<rparr>)))"
    using q1 e d(1) payload_error_too_large by blast
  have f: "fst (maybeStoreData False env_pages_too_large ?d) = Exited 1 \<and>
           requests (after_flush False env_pages_too_large ?d) = [''PAGES-000000001''] \<and>
           dispatched (after_flush False env_pages_too_large ?d) = [SUBSCENE_START]"
    using f0
    by (simp add: others_push_def d batch_key_first two_pages_fields env_pages_too_large_def
          env_ok_def)
  have q3: "(if browse_result too_large_worker = None then close_result too_large_worker else None) = None \<and>
      is_exit (fst (maybeStoreData False (flush_env too_large_worker)
        (snd (load_page no_input too_large_worker SUBSCENE_START ?d)))) \<longrightarrow>
      workerFunc no_input too_large_worker SUBSCENE_START ?d =
        maybeStoreData False (flush_env too_large_worker)
          (snd (load_page no_input too_large_worker SUBSCENE_START ?d))"
    using queue by blast
  have 4: "workerFunc no_input too_large_worker SUBSCENE_START ?d =
           maybeStoreData False env_pages_too_large ?d"
    using q3 c f by (simp only: l too_large_worker_fields) simp
  have r: "is_exit (fst (workerFunc no_input too_large_worker SUBSCENE_START ?d)) \<longrightarrow>
      run_queue no_input (\<lambda>i. too_large_worker) 0
        (SUBSCENE_START # [''https://subscene.com/subtitles/x'']) two_pages =
        workerFunc no_input too_large_worker SUBSCENE_START ?d"
    using flush by blast
  have x: "is_exit (fst (workerFunc no_input too_large_worker SUBSCENE_START ?d))"
    using 4 f by simp
  have 5: "run_queue no_input (\<lambda>i. too_large_worker) 0 two_seeds two_pages =
           maybeStoreData False env_pages_too_large ?d"
    using r x 4 by (simp only: two_seeds_Cons)
  show ?thesis
    using 1 2 3 5 f c e two_pages_begins [of False] payload_error_too_large
    by simp
qed

section \<open>The order of the batch write and the \<open>STATE\<close> write\<close>

text \<open>
  Claim C7, as the code has it. The record under \<open>STATE\<close> changes only in a call whose batch
  write succeeded before, and it then holds the counters that include that batch; when the
  counters matched the store before the call, the record matches the store with the new
  batch. When the batch write fails, neither the record under \<open>STATE\<close> nor the counters
  change. A failure of the \<open>STATE\<close> write after a successful batch write ends the process
  when it is the store's size-limit error and is thrown to the caller when the flush is
  forced; in a flush that is not forced any other failure is logged and ignored: the call
  returns normally, the batch is stored, the counters in memory have advanced, and the
  record under \<open>STATE\<close> is the old one.
\<close>

theorem state_written_after_batch:
  "(kv_STATE (after_flush force env w) \<noteq> kv_STATE w \<longrightarrow>
      flush_begin force w \<noteq> None \<and> pages_write env = None \<and> state_write env = None \<and>
      kv_PAGES (after_flush force env w) = (batch_key (state w), finishedPages w) # kv_PAGES w \<and>
      kv_STATE (after_flush force env w) =
        Some ((state w)\<lparr>pageCount := pageCount (state w) + int (length (finishedPages w)),
                        storeCount := storeCount (state w) + 1\<rparr>)) \<and>
   (counters_match w \<and> flush_begin force w \<noteq> None \<and> pages_write env = None \<and>
    state_write env = None \<longrightarrow>
      kv_STATE (after_flush force env w) = Some (state (after_flush force env w)) \<and>
      counters_match (after_flush force env w)) \<and>
   (pages_write env \<noteq> None \<longrightarrow>
      kv_STATE (after_flush force env w) = kv_STATE w \<and>
      state (after_flush force env w) = state w \<and>
      (requests (after_flush force env w) = requests w \<or>
       requests (after_flush force env w) = batch_key (state w) # requests w)) \<and>
   (flush_begin force w \<noteq> None \<and> pages_write env = None \<and> state_write env = Some e \<longrightarrow>
      fst (maybeStoreData force env w) =
        (if is_payload_too_large e then Exited 1 else if force then Thrown e else Returned) \<and>
      kv_STATE (after_flush force env w) = kv_STATE w \<and>
      kv_PAGES (after_flush force env w) = (batch_key (state w), finishedPages w) # kv_PAGES w \<and>
      pageCount (state (after_flush force env w)) =
        pageCount (state w) + int (length (finishedPages w)) \<and>
      storeCount (state (after_flush force env w)) = storeCount (state w) + 1)"
proof -
  have 1: "kv_STATE (after_flush force env w) \<noteq> kv_STATE w \<longrightarrow>
      flush_begin force w \<noteq> None \<and> pages_write env = None \<and> state_write env = None \<and>
      kv_PAGES (after_flush force env w) = (batch_key (state w), finishedPages w) # kv_PAGES w \<and>
      kv_STATE (after_flush force env w) =
        Some ((state w)\<lparr>pageCount := pageCount (state w) + int (length (finishedPages w)),
                        storeCount := storeCount (state w) + 1\<rparr>)"
  proof (cases "flush_begin force w = None")
    case True
    then show ?thesis by (simp add: maybeStoreData_skip)
  next
    case False
    show ?thesis
    proof (cases "pages_write env")
      case None
      with False show ?thesis
        by (cases "state_write env") (simp_all add: maybeStoreData_pages_stored(2,4,5))
    next
      case (Some e)
      with False show ?thesis by (simp add: maybeStoreData_pages_failed(5))
    qed
  qed
  have 2: "counters_match w \<and> flush_begin force w \<noteq> None \<and> pages_write env = None \<and>
    state_write env = None \<longrightarrow>
      kv_STATE (after_flush force env w) = Some (state (after_flush force env w)) \<and>
      counters_match (after_flush force env w)"
    by (simp add: maybeStoreData_pages_stored(5) maybeStoreData_counters_match)
  have 3: "pages_write env \<noteq> None \<longrightarrow>
      kv_STATE (after_flush force env w) = kv_STATE w \<and>
      state (after_flush force env w) = state w \<and>
      (requests (after_flush force env w) = requests w \<or>
       requests (after_flush force env w) = batch_key (state w) # requests w)"
  proof (cases "flush_begin force w = None")
    case True
    then show ?thesis by (simp add: maybeStoreData_skip)
  next
    case False
    then show ?thesis by (auto simp: maybeStoreData_pages_failed(2,5,6))
  qed
  have 4: "flush_begin force w \<noteq> None \<and> pages_write env = None \<and> state_write env = Some e \<longrightarrow>
      fst (maybeStoreData force env w) =
        (if is_payload_too_large e then Exited 1 else if force then Thrown e else Returned) \<and>
      kv_STATE (after_flush force env w) = kv_STATE w \<and>
      kv_PAGES (after_flush force env w) = (batch_key (state w), finishedPages w) # kv_PAGES w \<and>
      pageCount (state (after_flush force env w)) =
        pageCount (state w) + int (length (finishedPages w)) \<and>
      storeCount (state (after_flush force env w)) = storeCount (state w) + 1"
    by (simp add: maybeStoreData_pages_stored(1,2,4,5))
  show ?thesis using 1 2 3 4 by blast
qed

theorem state_write_failure_ignored:
  "flush_begin False two_pages \<noteq> None \<and>
   pages_write env_state_fail = None \<and> state_write env_state_fail = Some network_error \<and>
   fst (maybeStoreData False env_state_fail two_pages) = Returned \<and>
   kv_PAGES (after_flush False env_state_fail two_pages) =
     [(''PAGES-000000001'', [example_page ''a'', example_page ''b''])] \<and>
   kv_STATE (after_flush False env_state_fail two_pages) = None \<and>
   pageCount (state (after_flush False env_state_fail two_pages)) = 2 \<and>
   storeCount (state (after_flush False env_state_fail two_pages)) = 1 \<and>
   \<not> isStoring (after_flush False env_state_fail two_pages)"
proof -
  have e: "pages_write env_state_fail = None" "state_write env_state_fail = Some network_error"
    by (simp_all add: env_state_fail_def env_ok_def)
  show ?thesis
    using two_pages_begins [of False] e network_error_not_too_large
    by (simp add: maybeStoreData_pages_stored two_pages_fields batch_key_first
          DEFAULT_STATE_fields)
qed

theorem state_written_after_batch_witness:
  "kv_STATE (after_flush False env_ok two_pages) \<noteq> kv_STATE two_pages \<and>
   counters_match two_pages \<and> flush_begin False two_pages \<noteq> None \<and>
   pages_write env_ok = None \<and> state_write env_ok = None \<and>
   kv_STATE (after_flush False env_ok two_pages) = Some \<lparr>storeCount = 1, pageCount = 2\<rparr> \<and>
   kv_PAGES (after_flush False env_ok two_pages) =
     [(''PAGES-000000001'', [example_page ''a'', example_page ''b''])] \<and>
   counters_match (after_flush False env_ok two_pages) \<and>
   pages_write env_pages_fail \<noteq> None \<and>
   kv_STATE (after_flush False env_pages_fail two_pages) = None \<and>
   state (after_flush False env_pages_fail two_pages) = DEFAULT_STATE \<and>
   state_write env_state_fail = Some network_error \<and> pages_write env_state_fail = None \<and>
   fst (maybeStoreData False env_state_fail two_pages) = Returned \<and>
   fst (maybeStoreData True env_state_fail two_pages) = Thrown network_error \<and>
   fst (maybeStoreData False env_state_too_large two_pages) = Exited 1 \<and>
   kv_STATE (after_flush False env_state_fail two_pages) = None \<and>
   pageCount (state (after_flush False env_state_fail two_pages)) = 2"
proof -
  have e: "pages_write env_state_fail = None" "state_write env_state_fail = Some network_error"
    "pages_write env_pages_fail \<noteq> None"
    "pages_write env_state_too_large = None" "state_write env_state_too_large = Some payload_error"
    by (simp_all add: env_state_fail_def env_ok_def env_pages_fail_def env_state_too_large_def)
  have c: "kv_STATE (after_flush False env_ok two_pages) \<noteq> kv_STATE two_pages"
    using two_pages_begins [of False]
    by (simp add: maybeStoreData_pages_stored(5) env_ok_fields two_pages_fields)
  have 1: "kv_STATE (after_flush False env_ok two_pages) = Some \<lparr>storeCount = 1, pageCount = 2\<rparr> \<and>
      kv_PAGES (after_flush False env_ok two_pages) =
        [(''PAGES-000000001'', [example_page ''a'', example_page ''b''])] \<and>
      counters_match (after_flush False env_ok two_pages)"
    using state_written_after_batch [where force = False and env = env_ok and w = two_pages
        and e = network_error] c counters_match_two_pages
    by (simp add: env_ok_fields two_pages_fields batch_key_initial DEFAULT_STATE_def)
  have 2: "kv_STATE (after_flush False env_pages_fail two_pages) = None \<and>
      state (after_flush False env_pages_fail two_pages) = DEFAULT_STATE"
    using state_written_after_batch [where force = False and env = env_pages_fail
        and w = two_pages and e = network_error] e
    by (simp add: two_pages_fields)
  have 3: "fst (maybeStoreData False env_state_fail two_pages) = Returned \<and>
      kv_STATE (after_flush False env_state_fail two_pages) = None \<and>
      pageCount (state (after_flush False env_state_fail two_pages)) = 2"
    using state_written_after_batch [where force = False and env = env_state_fail
        and w = two_pages and e = network_error] e two_pages_begins [of False]
      network_error_not_too_large
    by (simp add: two_pages_fields DEFAULT_STATE_fields)
  have 4: "fst (maybeStoreData True env_state_fail two_pages) = Thrown network_error"
    using state_written_after_batch [where force = True and env = env_state_fail
        and w = two_pages and e = network_error] e two_pages_begins [of True]
      network_error_not_too_large
    by simp
  have 5: "fst (maybeStoreData False env_state_too_large two_pages) = Exited 1"
    using state_written_after_batch [where force = False and env = env_state_too_large
        and w = two_pages and e = payload_error] e two_pages_begins [of False]
      payload_error_too_large
    by simp
  show ?thesis
    using 1 2 3 4 5 c e counters_match_two_pages two_pages_begins [of False]
    by (simp add: env_ok_fields)
qed

section \<open>Resuming a crawl\<close>

text \<open>
  Claim C8. At startup the state is read from the store; when nothing is stored under
  \<open>STATE\<close>, both counters are zero. With a stored \<open>pageCount\<close> of \<open>k\<close>, the URLs pushed onto
  the queue are exactly the seed list without its first \<open>k\<close> entries, none when \<open>k\<close> is the
  length of the list or more, and all of them when nothing is stored; unless the process
  exits on the way, exactly these URLs are given to a worker, in this order. For the
  program's own seed list this is the start page or nothing.
\<close>

theorem resume_skips_processed_seeds:
  "state (crawl_prepare seeds inp t None sp) = \<lparr>storeCount = 0, pageCount = 0\<rparr> \<and>
   state (crawl_prepare seeds inp t (Some st) sp) = st \<and>
   queued (snd (crawl seeds inp t None sp envs fe)) = seeds \<and>
   queued (snd (crawl seeds inp t (Some st) sp envs fe)) = drop (nat (pageCount st)) seeds \<and>
   (\<not> is_exit (fst (crawl seeds inp t (Some st) sp envs fe)) \<longrightarrow>
      dispatched (snd (crawl seeds inp t (Some st) sp envs fe)) = drop (nat (pageCount st)) seeds) \<and>
   (int (length seeds) \<le> pageCount st \<longrightarrow>
      queued (snd (crawl seeds inp t (Some st) sp envs fe)) = [] \<and>
      dispatched (snd (crawl seeds inp t (Some st) sp envs fe)) = []) \<and>
   queued (snd (main inp t (Some st) sp envs fe)) = drop (nat (pageCount st)) [SUBSCENE_START]"
proof -
  have 1: "state (crawl_prepare seeds inp t None sp) = \<lparr>storeCount = 0, pageCount = 0\<rparr>"
    "state (crawl_prepare seeds inp t (Some st) sp) = st"
    by (simp_all add: crawl_prepare_fields DEFAULT_STATE_def)
  have 2: "queued (snd (crawl seeds inp t None sp envs fe)) = seeds"
    "queued (snd (crawl seeds inp t (Some st) sp envs fe)) = drop (nat (pageCount st)) seeds"
    "queued (snd (main inp t (Some st) sp envs fe)) = drop (nat (pageCount st)) [SUBSCENE_START]"
    by (simp_all add: main_def crawl_queued crawl_prepare_urls)
  have 3: "\<not> is_exit (fst (crawl seeds inp t (Some st) sp envs fe)) \<longrightarrow>
      dispatched (snd (crawl seeds inp t (Some st) sp envs fe)) = drop (nat (pageCount st)) seeds"
    by (simp add: crawl_dispatched crawl_prepare_urls)
  have 4: "int (length seeds) \<le> pageCount st \<longrightarrow>
      queued (snd (crawl seeds inp t (Some st) sp envs fe)) = [] \<and>
      dispatched (snd (crawl seeds inp t (Some st) sp envs fe)) = []"
  proof
    assume "int (length seeds) \<le> pageCount st"
    then have "urls (crawl_prepare seeds inp t (Some st) sp) = []"
      by (simp add: crawl_prepare_urls)
    then show "queued (snd (crawl seeds inp t (Some st) sp envs fe)) = [] \<and>
      dispatched (snd (crawl seeds inp t (Some st) sp envs fe)) = []"
      by (simp add: crawl_queued crawl_nothing_left)
  qed
  show ?thesis using 1 2 3 4 by simp
qed

theorem resume_skips_processed_seeds_witness:
  "\<not> is_exit (fst (crawl three_seeds no_input 0 (Some (resumed 1)) []
       (\<lambda>i. subtitle_worker [] env_ok) env_ok)) \<and>
   queued (snd (crawl three_seeds no_input 0 (Some (resumed 1)) []
       (\<lambda>i. subtitle_worker [] env_ok) env_ok)) =
     [''https://subscene.com/subtitles/x'', ''https://subscene.com/subtitles/y''] \<and>
   dispatched (snd (crawl three_seeds no_input 0 (Some (resumed 1)) []
       (\<lambda>i. subtitle_worker [] env_ok) env_ok)) =
     [''https://subscene.com/subtitles/x'', ''https://subscene.com/subtitles/y''] \<and>
   int (length three_seeds) \<le> pageCount (resumed 5) \<and>
   queued (snd (crawl three_seeds no_input 0 (Some (resumed 5)) []
       (\<lambda>i. subtitle_worker [] env_ok) env_ok)) = [] \<and>
   dispatched (snd (crawl three_seeds no_input 0 (Some (resumed 5)) []
       (\<lambda>i. subtitle_worker [] env_ok) env_ok)) = [] \<and>
   queued (snd (crawl three_seeds no_input 0 None []
       (\<lambda>i. subtitle_worker [] env_ok) env_ok)) = three_seeds"
proof -
  have r: "fst (crawl three_seeds no_input 0 (Some (resumed 1)) []
       (\<lambda>i. subtitle_worker [] env_ok) env_ok) = Returned"
    by (simp add: three_seeds_def resumed_def model_defs example_defs)
  have l: "int (length three_seeds) \<le> pageCount (resumed 5)"
    by (simp add: three_seeds_def resumed_def)
  have d: "drop (nat (pageCount (resumed 1))) three_seeds =
      [''https://subscene.com/subtitles/x'', ''https://subscene.com/subtitles/y'']"
    by (simp add: three_seeds_def resumed_def)
  have 1: "queued (snd (crawl three_seeds no_input 0 (Some (resumed 1)) []
       (\<lambda>i. subtitle_worker [] env_ok) env_ok)) =
     [''https://subscene.com/subtitles/x'', ''https://subscene.com/subtitles/y''] \<and>
   dispatched (snd (crawl three_seeds no_input 0 (Some (resumed 1)) []
       (\<lambda>i. subtitle_worker [] env_ok) env_ok)) =
     [''https://subscene.com/subtitles/x'', ''https://subscene.com/subtitles/y''] \<and>
   queued (snd (crawl three_seeds no_input 0 None []
       (\<lambda>i. subtitle_worker [] env_ok) env_ok)) = three_seeds"
    using resume_skips_processed_seeds [where seeds = three_seeds and inp = no_input and t = 0
        and st = "resumed 1" and sp = "[]" and envs = "\<lambda>i. subtitle_worker [] env_ok"
        and fe = env_ok] r
    by (simp add: d)
  have 2: "queued (snd (crawl three_seeds no_input 0 (Some (resumed 5)) []
       (\<lambda>i. subtitle_worker [] env_ok) env_ok)) = [] \<and>
   dispatched (snd (crawl three_seeds no_input 0 (Some (resumed 5)) []
       (\<lambda>i. subtitle_worker [] env_ok) env_ok)) = []"
    using resume_skips_processed_seeds [where seeds = three_seeds and inp = no_input and t = 0
        and st = "resumed 5" and sp = "[]" and envs = "\<lambda>i. subtitle_worker [] env_ok"
        and fe = env_ok] l
    by blast
  show ?thesis using 1 2 r l by simp
qed

section \<open>Defaults of the configuration\<close>

text \<open>
  Claim C9 at the input without any field, and at an input whose \<open>storePagesInterval\<close> is
  zero: the queue gets the concurrency 1, and \<open>storePagesInterval\<close> keeps the value 50 it is
  initialised with at line 66, so ten buffered pages are not flushed by a call that is not
  forced.
\<close>

theorem default_storePagesInterval_is_50:
  "queue_concurrency no_input = 1 \<and>
   storePagesInterval (crawl_prepare [SUBSCENE_START] no_input 0 None []) = 50 \<and>
   storePagesInterval (crawl_prepare [SUBSCENE_START] (interval_input 0) 0 None []) = 50 \<and>
   storePagesInterval (crawl_prepare [SUBSCENE_START] no_input 0 None []) \<noteq> 10 \<and>
   maybeStoreData False env_ok
     ((crawl_prepare [SUBSCENE_START] no_input 0 None [])
        \<lparr>finishedPages := replicate 10 (example_page ''a'')\<rparr>) =
     (Returned, (crawl_prepare [SUBSCENE_START] no_input 0 None [])
        \<lparr>finishedPages := replicate 10 (example_page ''a'')\<rparr>)"
proof -
  have 1: "queue_concurrency no_input = 1"
    by (simp add: queue_concurrency_def no_input_def)
  have 2: "storePagesInterval (crawl_prepare [SUBSCENE_START] no_input 0 None []) = 50"
    "storePagesInterval (crawl_prepare [SUBSCENE_START] (interval_input 0) 0 None []) = 50"
    by (simp_all add: interval_input_def no_input_def crawl_prepare_def module_init_def
          apply_storePagesInterval_def load_state_def skip_crawled_def DEFAULT_STATE_def Let_def)
  have "flush_begin False ((crawl_prepare [SUBSCENE_START] no_input 0 None [])
        \<lparr>finishedPages := replicate 10 (example_page ''a'')\<rparr>) = None"
    by (simp add: flush_begin_None_iff 2)
  then show ?thesis
    using 1 2 by (simp add: maybeStoreData_skip)
qed

section \<open>A failed batch write\<close>

text \<open>
  Claim C10. When the write of the batch fails, a call of \<open>maybeStoreData\<close> leaves the
  counters \<open>pageCount\<close> and \<open>storeCount\<close> and the store as they were, and the buffer holds
  what it held before, followed only by what other workers pushed while the call was
  suspended (nothing, if nothing arrived). On every path that does not end in
  \<open>process.exit\<close>, a call that found \<open>isStoring\<close> unset leaves it unset, whatever the store
  answered.
\<close>

theorem failed_batch_write_changes_nothing:
  "(pages_write env = Some e \<longrightarrow>
      state (after_flush force env w) = state w \<and>
      kv_PAGES (after_flush force env w) = kv_PAGES w \<and>
      kv_STATE (after_flush force env w) = kv_STATE w \<and>
      finishedPages (after_flush force env w) =
        finishedPages w @ (if flush_begin force w = None then [] else arrived_during_pages_write env) \<and>
      (arrived_during_pages_write env = [] \<longrightarrow>
         finishedPages (after_flush force env w) = finishedPages w)) \<and>
   (\<not> isStoring w \<and> \<not> is_exit (fst (maybeStoreData force env w)) \<longrightarrow>
      \<not> isStoring (after_flush force env w))"
proof (cases "flush_begin force w = None")
  case True
  then show ?thesis by (simp add: maybeStoreData_skip)
next
  case False
  then show ?thesis
    using maybeStoreData_flag [of w force env]
    by (auto simp: maybeStoreData_pages_failed)
qed

theorem failed_batch_write_changes_nothing_witness:
  "pages_write env_pages_fail = Some network_error \<and>
   arrived_during_pages_write env_pages_fail = [] \<and>
   \<not> isStoring (buffered 2 [example_page ''a'', example_page ''b'']) \<and>
   \<not> is_exit (fst (maybeStoreData False env_pages_fail (buffered 2 [example_page ''a'', example_page ''b'']))) \<and>
   state (after_flush False env_pages_fail (buffered 2 [example_page ''a'', example_page ''b''])) = DEFAULT_STATE \<and>
   finishedPages (after_flush False env_pages_fail (buffered 2 [example_page ''a'', example_page ''b''])) =
     [example_page ''a'', example_page ''b''] \<and>
   \<not> isStoring (after_flush False env_pages_fail (buffered 2 [example_page ''a'', example_page ''b'']))"
proof -
  have b: "flush_begin False (buffered 2 [example_page ''a'', example_page ''b'']) \<noteq> None"
    by (simp add: flush_begin_None_iff buffered_def module_init_def)
  have p: "pages_write env_pages_fail = Some network_error"
    by (simp add: env_pages_fail_def env_ok_def)
  have n: "\<not> is_payload_too_large network_error"
    by (simp add: is_payload_too_large_def network_error_def indexOf_def)
  have x: "\<not> is_exit (fst (maybeStoreData False env_pages_fail (buffered 2 [example_page ''a'', example_page ''b''])))"
    by (simp add: maybeStoreData_pages_failed(1) [OF b p] n)
  show ?thesis
    using failed_batch_write_changes_nothing [where env = env_pages_fail and e = network_error
        and force = False and w = "buffered 2 [example_page ''a'', example_page ''b'']"] x
    by (simp add: p buffered_def module_init_def env_pages_fail_def env_ok_def)
qed

end
